theory Spec2Isabelle
  imports Complex_Main "HOL-Library.Multiset"
begin

section \<open>Shared runtime values\<close>

text \<open>
  A JavaScript string is modelled as a list of code units restricted to the Latin-1
  range (one \<open>char\<close> per UTF-16 code unit below 256).  A thrown value is an exception
  object with a \<open>name\<close> and a \<open>message\<close>, or the value \<open>undefined\<close>.
\<close>

datatype exn = Exn (exn_name: string) (exn_message: string) | ThrownUndefined

definition AbortError :: exn where
  "AbortError = Exn ''AbortError'' ''The operation was aborted.''"

definition Error :: "string \<Rightarrow> exn" where
  "Error msg = Exn ''Error'' msg"

definition TypeError :: "string \<Rightarrow> exn" where
  "TypeError msg = Exn ''TypeError'' msg"

text \<open>Decimal rendering of a non-negative integer, as template literals do.\<close>

definition digit_char :: "nat \<Rightarrow> char" where
  "digit_char d = ''0123456789'' ! (d mod 10)"

fun string_of_nat :: "nat \<Rightarrow> string" where
  "string_of_nat n = (if n < 10 then [digit_char n] else string_of_nat (n div 10) @ [digit_char n])"

declare string_of_nat.simps [simp del]

record usage =
  prompt_tokens :: nat
  completion_tokens :: nat
  total_tokens :: nat

definition zero_usage :: usage where
  "zero_usage = \<lparr>prompt_tokens = 0, completion_tokens = 0, total_tokens = 0\<rparr>"

text \<open>
  What callLLM resolves to.  \<open>content\<close> is \<open>choice.message.content\<close>, handed on as it
  is: a string, or \<open>null\<close> (\<open>None\<close>) when the reply carries no text.
\<close>

record LLMResult =
  content :: "string option"
  finishReason :: string
  usage :: usage

text \<open>\<open>String(v)\<close> and \<open>`${v}`\<close> for a value that is a string or \<open>null\<close>.\<close>

definition js_String :: "string option \<Rightarrow> string" where
  "js_String v = (case v of None \<Rightarrow> ''null'' | Some s \<Rightarrow> s)"

text \<open>The error of reading a member of \<open>null\<close>, as in \<open>null.match(...)\<close>.\<close>

definition null_read :: "string \<Rightarrow> exn" where
  "null_read member =
     TypeError (''Cannot read properties of null (reading '' @ [CHR 0x27] @ member @ [CHR 0x27] @ '')'')"

section \<open>llm.js: callLLM\<close>

text \<open>
  The body of an HTTP reply after \<open>response.json()\<close>: the fields callLLM reads.
  \<open>choice_message\<close> is \<open>data.choices?.[0]?.message\<close>: \<open>None\<close> when there is none,
  otherwise its \<open>content\<close>, which is a string or \<open>null\<close>;
  \<open>error_message\<close> is \<open>err.error?.message\<close>.
\<close>

record chat_json =
  choice_message :: "string option option"
  finish_reason :: string
  usage_json :: "usage option"
  error_message :: "string option"

text \<open>
  One \<open>fetch('/api/chat')\<close>: it rejects, or resolves to a response with a status and
  a body whose \<open>json()\<close> rejects (\<open>Inl\<close>) or resolves (\<open>Inr\<close>).
\<close>

datatype fetch_result = FetchThrows exn | Response nat "exn + chat_json"

text \<open>\<open>response.ok\<close> of the Fetch API: the status is in the range 200-299.\<close>

definition response_ok :: "nat \<Rightarrow> bool" where
  "response_ok st = (200 \<le> st \<and> st \<le> 299)"

definition RETRYABLE_STATUSES :: "nat set" where
  "RETRYABLE_STATUSES = {429, 500, 502, 503, 504}"

definition MAX_RETRIES :: nat where
  "MAX_RETRIES = 3"

definition BASE_DELAY_MS :: nat where
  "BASE_DELAY_MS = 1000"

text \<open>
  The AbortSignal is read at two places of every loop round: before the attempt and
  after the backoff wait (which an abort event cuts short).  A signal is a predicate on
  these checkpoints; \<open>None\<close> is a call without a signal (\<open>signal?.aborted\<close> is then
  undefined, hence falsy).
\<close>

datatype checkpoint = BeforeAttempt nat | AfterBackoff nat

type_synonym signal = "(checkpoint \<Rightarrow> bool) option"

definition aborted :: "signal \<Rightarrow> checkpoint \<Rightarrow> bool" where
  "aborted sg cp = (case sg of None \<Rightarrow> False | Some f \<Rightarrow> f cp)"

text \<open>What a call does that is visible from outside: it waits and it sends requests.\<close>

datatype event = Wait nat | Request nat

definition retry_error :: "nat \<Rightarrow> nat \<Rightarrow> exn" where
  "retry_error st attempt =
     Error (''LLM API error: '' @ string_of_nat st @ '' (attempt '' @ string_of_nat (attempt + 1)
            @ ''/'' @ string_of_nat (MAX_RETRIES + 1) @ '')'')"

definition api_error :: "nat \<Rightarrow> exn + chat_json \<Rightarrow> exn" where
  "api_error st body =
     (let generic = ''LLM API error: '' @ string_of_nat st in
      Error (case body of
               Inl _ \<Rightarrow> generic
             | Inr err \<Rightarrow> (case error_message err of
                             None \<Rightarrow> generic
                           | Some m \<Rightarrow> if m = [] then generic else m)))"

definition completion_of :: "exn + chat_json \<Rightarrow> exn + LLMResult" where
  "completion_of body =
     (case body of
        Inl e \<Rightarrow> Inl e
      | Inr data \<Rightarrow>
          (case choice_message data of
             None \<Rightarrow> Inl (Error ''No completion returned from API'')
           | Some c \<Rightarrow>
               Inr \<lparr>content = c, finishReason = finish_reason data,
                    usage = (case usage_json data of None \<Rightarrow> zero_usage | Some u \<Rightarrow> u)\<rparr>))"

text \<open>
  The \<open>for (attempt = 0; attempt <= MAX_RETRIES; attempt++)\<close> loop of callLLM.  The
  state is the attempt number, \<open>lastError\<close> and the events so far.
\<close>

function callLLM_loop ::
  "signal \<Rightarrow> (nat \<Rightarrow> fetch_result) \<Rightarrow> nat \<Rightarrow> exn option \<Rightarrow> event list
     \<Rightarrow> (exn + LLMResult) \<times> event list" where
  "callLLM_loop sg fetch attempt lastError tr =
     (if attempt \<le> MAX_RETRIES then
        if aborted sg (BeforeAttempt attempt) then (Inl AbortError, tr)
        else
          let tr1 = (if attempt > 0 then tr @ [Wait (BASE_DELAY_MS * 2 ^ (attempt - 1))] else tr) in
          if attempt > 0 \<and> aborted sg (AfterBackoff attempt) then (Inl AbortError, tr1)
          else
            let tr2 = tr1 @ [Request attempt] in
            (case fetch attempt of
               FetchThrows fetchErr \<Rightarrow>
                 if fetchErr = ThrownUndefined then (Inl (TypeError ''Cannot read properties of undefined''), tr2)
                 else if exn_name fetchErr = ''AbortError'' then (Inl fetchErr, tr2)
                 else if attempt < MAX_RETRIES then callLLM_loop sg fetch (attempt + 1) (Some fetchErr) tr2
                 else (Inl fetchErr, tr2)
             | Response st body \<Rightarrow>
                 if response_ok st then (completion_of body, tr2)
                 else if st \<notin> RETRYABLE_STATUSES then (Inl (api_error st body), tr2)
                 else callLLM_loop sg fetch (attempt + 1) (Some (retry_error st attempt)) tr2)
      else (Inl (case lastError of None \<Rightarrow> ThrownUndefined | Some e \<Rightarrow> e), tr))"
  by pat_completeness auto
termination
  by (relation "measure (\<lambda>(sg, fetch, attempt, lastError, tr). MAX_RETRIES + 1 - attempt)") auto

declare callLLM_loop.simps [simp del]

definition callLLM :: "signal \<Rightarrow> (nat \<Rightarrow> fetch_result) \<Rightarrow> (exn + LLMResult) \<times> event list" where
  "callLLM sg fetch = callLLM_loop sg fetch 0 None []"

text \<open>A transient failure: a response whose status is in the retryable set.\<close>

definition transient :: "fetch_result \<Rightarrow> bool" where
  "transient r = (case r of FetchThrows _ \<Rightarrow> False | Response st _ \<Rightarrow> st \<in> RETRYABLE_STATUSES)"

definition status_of :: "fetch_result \<Rightarrow> nat" where
  "status_of r = (case r of FetchThrows _ \<Rightarrow> 0 | Response st _ \<Rightarrow> st)"

text \<open>
  An outcome after which the loop goes on to the next attempt (when one is left): a
  transient status, or a rejected fetch that is not an AbortError.
\<close>

definition retried :: "fetch_result \<Rightarrow> bool" where
  "retried r = (case r of
                  FetchThrows e \<Rightarrow> e \<noteq> ThrownUndefined \<and> exn_name e \<noteq> ''AbortError''
                | Response st _ \<Rightarrow> st \<in> RETRYABLE_STATUSES)"

text \<open>The value \<open>lastError\<close> holds after a retried attempt.\<close>

definition attempt_error :: "fetch_result \<Rightarrow> nat \<Rightarrow> exn" where
  "attempt_error r attempt = (case r of FetchThrows e \<Rightarrow> e | Response st _ \<Rightarrow> retry_error st attempt)"

text \<open>Both reads of the signal in round \<open>k\<close> find it not aborted.\<close>

definition signal_clear :: "signal \<Rightarrow> nat \<Rightarrow> bool" where
  "signal_clear sg k = (\<not> aborted sg (BeforeAttempt k) \<and> (0 < k \<longrightarrow> \<not> aborted sg (AfterBackoff k)))"

text \<open>
  The events of attempts \<open>0 .. n - 1\<close> when each of them is sent: every attempt
  \<open>k > 0\<close> is preceded by a wait of \<open>1000 * 2 ^ (k - 1)\<close> milliseconds.
\<close>

definition attempt_events :: "nat \<Rightarrow> event list" where
  "attempt_events k = (if k > 0 then [Wait (1000 * 2 ^ (k - 1))] else []) @ [Request k]"

definition attempts_trace :: "nat \<Rightarrow> event list" where
  "attempts_trace n = concat (map attempt_events [0..<n])"

section \<open>JavaScript strings and regular expressions\<close>

text \<open>
  The classes of the regular expressions of the sources, on the Latin-1 range:
  \<open>\s\<close> (which is also what \<open>trim\<close> strips), the line terminators (what \<open>.\<close> excludes
  and what \<open>^\<close> and \<open>$\<close> see under the \<open>m\<close> flag), \<open>\d\<close> and \<open>\w\<close>.
\<close>

definition js_whitespace :: "char \<Rightarrow> bool" where
  "js_whitespace c = (c \<in> set [CHR 0x09, CHR 0x0A, CHR 0x0B, CHR 0x0C, CHR 0x0D, CHR 0x20, CHR 0xA0])"

definition line_terminator :: "char \<Rightarrow> bool" where
  "line_terminator c = (c = CHR 0x0A \<or> c = CHR 0x0D)"

definition is_digit :: "char \<Rightarrow> bool" where
  "is_digit c = (c \<in> set ''0123456789'')"

definition is_word :: "char \<Rightarrow> bool" where
  "is_word c = (c \<in> set (''abcdefghijklmnopqrstuvwxyz'' @ ''ABCDEFGHIJKLMNOPQRSTUVWXYZ'' @ ''0123456789_''))"

definition trim :: "string \<Rightarrow> string" where
  "trim s = rev (dropWhile js_whitespace (rev (dropWhile js_whitespace s)))"

definition upper_letters :: string where
  "upper_letters = ''ABCDEFGHIJKLMNOPQRSTUVWXYZ'' @
     [CHR 0xC0, CHR 0xC1, CHR 0xC2, CHR 0xC3, CHR 0xC4, CHR 0xC5, CHR 0xC6, CHR 0xC7,
      CHR 0xC8, CHR 0xC9, CHR 0xCA, CHR 0xCB, CHR 0xCC, CHR 0xCD, CHR 0xCE, CHR 0xCF,
      CHR 0xD0, CHR 0xD1, CHR 0xD2, CHR 0xD3, CHR 0xD4, CHR 0xD5, CHR 0xD6,
      CHR 0xD8, CHR 0xD9, CHR 0xDA, CHR 0xDB, CHR 0xDC, CHR 0xDD, CHR 0xDE]"

definition lower_letters :: string where
  "lower_letters = ''abcdefghijklmnopqrstuvwxyz'' @
     [CHR 0xE0, CHR 0xE1, CHR 0xE2, CHR 0xE3, CHR 0xE4, CHR 0xE5, CHR 0xE6, CHR 0xE7,
      CHR 0xE8, CHR 0xE9, CHR 0xEA, CHR 0xEB, CHR 0xEC, CHR 0xED, CHR 0xEE, CHR 0xEF,
      CHR 0xF0, CHR 0xF1, CHR 0xF2, CHR 0xF3, CHR 0xF4, CHR 0xF5, CHR 0xF6,
      CHR 0xF8, CHR 0xF9, CHR 0xFA, CHR 0xFB, CHR 0xFC, CHR 0xFD, CHR 0xFE]"

definition lower_char :: "char \<Rightarrow> char" where
  "lower_char c = (case map_of (zip upper_letters lower_letters) c of Some l \<Rightarrow> l | None \<Rightarrow> c)"

definition toLowerCase :: "string \<Rightarrow> string" where
  "toLowerCase s = map lower_char s"

text \<open>
  The canonical form the \<open>i\<close> flag compares: every pattern of the sources is ASCII, and an
  ASCII letter matches exactly its two cases.
\<close>

definition upper_ascii :: "char \<Rightarrow> char" where
  "upper_ascii c =
     (case map_of (zip ''abcdefghijklmnopqrstuvwxyz'' ''ABCDEFGHIJKLMNOPQRSTUVWXYZ'') c of
        Some u \<Rightarrow> u | None \<Rightarrow> c)"

text \<open>\<open>str.startsWith(p)\<close>, \<open>str.split('\n')\<close> and \<open>parts.join(sep)\<close>.\<close>

definition startsWith :: "string \<Rightarrow> string \<Rightarrow> bool" where
  "startsWith s p = (take (length p) s = p)"

fun split_lines :: "string \<Rightarrow> string list" where
  "split_lines [] = [[]]"
| "split_lines (c # cs) =
     (if c = CHR 0x0A then [] # split_lines cs
      else (case split_lines cs of [] \<Rightarrow> [[c]] | l # ls \<Rightarrow> (c # l) # ls))"

fun join :: "string \<Rightarrow> string list \<Rightarrow> string" where
  "join sep [] = []"
| "join sep [x] = x"
| "join sep (x # y # ys) = x @ sep @ join sep (y # ys)"

subsection \<open>A backtracking matcher\<close>

text \<open>
  The regular expressions are kept as syntax trees and run by a backtracking matcher
  with the priorities of the JavaScript one: the first alternative first, a greedy
  star takes an iteration before it tries to go on, a lazy star the other way round,
  and an iteration that consumes nothing is refused.  A position is the text before
  it (reversed) and the text after it.  \<open>Bol\<close> and \<open>Eol\<close> carry the \<open>m\<close> flag.
\<close>

type_synonym pos = "string \<times> string"
type_synonym caps = "(nat \<times> string) list"
type_synonym mres = "(pos \<times> caps) option"

datatype regex =
    Chr "char \<Rightarrow> bool"
  | Eps
  | Seq regex regex
  | Alt regex regex
  | Star bool regex
  | Group nat regex
  | Bol bool
  | Eol bool
  | WordB
  | Look regex

text \<open>
  The iterations of a star.  Every iteration consumes a code unit, so there are at most
  as many as code units left: the bound given by \<open>rmatch\<close> is never reached before the
  text ends.
\<close>

primrec star_iter ::
  "bool \<Rightarrow> (pos \<Rightarrow> caps \<Rightarrow> (pos \<Rightarrow> caps \<Rightarrow> mres) \<Rightarrow> mres) \<Rightarrow> nat \<Rightarrow> pos \<Rightarrow> caps
     \<Rightarrow> (pos \<Rightarrow> caps \<Rightarrow> mres) \<Rightarrow> mres" where
  "star_iter greedy f 0 p c k = k p c"
| "star_iter greedy f (Suc n) p c k =
     (if greedy then
        (case f p c (\<lambda>p' c'. if length (snd p') < length (snd p)
                               then star_iter greedy f n p' c' k else None) of
           Some r \<Rightarrow> Some r
         | None \<Rightarrow> k p c)
      else
        (case k p c of
           Some r \<Rightarrow> Some r
         | None \<Rightarrow> f p c (\<lambda>p' c'. if length (snd p') < length (snd p)
                                     then star_iter greedy f n p' c' k else None)))"

definition at_word_boundary :: "pos \<Rightarrow> bool" where
  "at_word_boundary p =
     ((case fst p of [] \<Rightarrow> False | x # _ \<Rightarrow> is_word x)
        \<noteq> (case snd p of [] \<Rightarrow> False | y # _ \<Rightarrow> is_word y))"

primrec rmatch :: "regex \<Rightarrow> pos \<Rightarrow> caps \<Rightarrow> (pos \<Rightarrow> caps \<Rightarrow> mres) \<Rightarrow> mres" where
  "rmatch (Chr P) p c k =
     (case snd p of [] \<Rightarrow> None | x # xs \<Rightarrow> if P x then k (x # fst p, xs) c else None)"
| "rmatch Eps p c k = k p c"
| "rmatch (Seq r1 r2) p c k = rmatch r1 p c (\<lambda>p' c'. rmatch r2 p' c' k)"
| "rmatch (Alt r1 r2) p c k =
     (case rmatch r1 p c k of Some r \<Rightarrow> Some r | None \<Rightarrow> rmatch r2 p c k)"
| "rmatch (Star greedy r) p c k = star_iter greedy (rmatch r) (Suc (length (snd p))) p c k"
| "rmatch (Group n r) p c k =
     rmatch r p c (\<lambda>p' c'. k p' ((n, take (length (snd p) - length (snd p')) (snd p)) # c'))"
| "rmatch (Bol multiline) p c k =
     (if (case fst p of [] \<Rightarrow> True | x # _ \<Rightarrow> multiline \<and> line_terminator x) then k p c else None)"
| "rmatch (Eol multiline) p c k =
     (if (case snd p of [] \<Rightarrow> True | y # _ \<Rightarrow> multiline \<and> line_terminator y) then k p c else None)"
| "rmatch WordB p c k = (if at_word_boundary p then k p c else None)"
| "rmatch (Look r) p c k =
     (case rmatch r p c (\<lambda>p' c'. Some (p', c')) of None \<Rightarrow> None | Some (_, c') \<Rightarrow> k p c')"

text \<open>
  A match: the text before it, the matched text, the text after it, and the groups.
  \<open>exec_from\<close> looks for the leftmost match that starts at or after a position, as
  \<open>exec\<close>, \<open>match\<close> and \<open>test\<close> do.
\<close>

record rx_match =
  m_before :: string
  m_text :: string
  m_after :: string
  m_caps :: caps

fun exec_from :: "regex \<Rightarrow> string \<Rightarrow> string \<Rightarrow> rx_match option" where
  "exec_from r b a =
     (case rmatch r (b, a) [] (\<lambda>p c. Some (p, c)) of
        Some (p', c') \<Rightarrow>
          Some \<lparr>m_before = rev b, m_text = take (length a - length (snd p')) a,
                m_after = snd p', m_caps = c'\<rparr>
      | None \<Rightarrow> (case a of [] \<Rightarrow> None | x # xs \<Rightarrow> exec_from r (x # b) xs))"

declare exec_from.simps [simp del]

definition regex_exec :: "regex \<Rightarrow> string \<Rightarrow> rx_match option" where
  "regex_exec r s = exec_from r [] s"

definition regex_test :: "regex \<Rightarrow> string \<Rightarrow> bool" where
  "regex_test r s = (regex_exec r s \<noteq> None)"

text \<open>
  The text of group \<open>n\<close> of a match.  Every group read by the sources takes part in
  every match of its expression, so the default is never used.
\<close>

definition cap :: "rx_match \<Rightarrow> nat \<Rightarrow> string" where
  "cap m n = (case map_of (m_caps m) n of Some s \<Rightarrow> s | None \<Rightarrow> [])"

text \<open>\<open>str.replace(re, repl)\<close> without the \<open>g\<close> flag: the first match only.\<close>

definition replace_first :: "regex \<Rightarrow> string \<Rightarrow> string \<Rightarrow> string" where
  "replace_first r repl s =
     (case regex_exec r s of None \<Rightarrow> s | Some m \<Rightarrow> m_before m @ repl @ m_after m)"

text \<open>
  With the \<open>g\<close> flag: every match, left to right, the search going on where the match
  before ended, one code unit further after an empty match.  Each round moves on in
  the text, so the bound (one more than the length) is never reached.  The result is
  built from the pieces between the matches.
\<close>

fun replace_rounds :: "nat \<Rightarrow> regex \<Rightarrow> string \<Rightarrow> string \<Rightarrow> string \<Rightarrow> string" where
  "replace_rounds 0 r repl b a = a"
| "replace_rounds (Suc n) r repl b a =
     (case exec_from r b a of
        None \<Rightarrow> a
      | Some m \<Rightarrow>
          let skipped = drop (length b) (m_before m) in
          if m_text m = [] then
            (case m_after m of
               [] \<Rightarrow> skipped @ repl
             | x # xs \<Rightarrow> skipped @ repl @ [x] @ replace_rounds n r repl (x # rev (m_before m)) xs)
          else skipped @ repl @ replace_rounds n r repl (rev (m_text m) @ rev (m_before m)) (m_after m))"

definition replace_all :: "regex \<Rightarrow> string \<Rightarrow> string \<Rightarrow> string" where
  "replace_all r repl s = replace_rounds (Suc (length s)) r repl [] s"



text \<open>Building blocks: literals (exact and under the \<open>i\<close> flag), \<open>+\<close>, \<open>?\<close> and the classes.\<close>

definition lit :: "string \<Rightarrow> regex" where
  "lit s = foldr (\<lambda>ch r. Seq (Chr (\<lambda>x. x = ch)) r) s Eps"

definition liti :: "string \<Rightarrow> regex" where
  "liti s = foldr (\<lambda>ch r. Seq (Chr (\<lambda>x. upper_ascii x = upper_ascii ch)) r) s Eps"

definition Plus :: "bool \<Rightarrow> regex \<Rightarrow> regex" where
  "Plus greedy r = Seq r (Star greedy r)"

definition Opt :: "regex \<Rightarrow> regex" where
  "Opt r = Alt r Eps"

definition seqs :: "regex list \<Rightarrow> regex" where
  "seqs rs = foldr Seq rs Eps"

definition alts :: "regex \<Rightarrow> regex list \<Rightarrow> regex" where
  "alts r rs = foldr (\<lambda>x y. Alt x y) (butlast (r # rs)) (last (r # rs))"

definition dot :: regex where
  "dot = Chr (\<lambda>c. \<not> line_terminator c)"

definition any_char :: regex where
  "any_char = Chr (\<lambda>c. True)"

definition wsp :: regex where
  "wsp = Chr js_whitespace"

definition digit :: regex where
  "digit = Chr is_digit"

definition word_char :: regex where
  "word_char = Chr is_word"

definition one_of :: "string \<Rightarrow> regex" where
  "one_of s = Chr (\<lambda>c. c \<in> set s)"


section \<open>utils/parser.js\<close>

text \<open>A value that an \<open>if (!answer)\<close> takes for absent: \<open>null\<close> or the empty string.\<close>

definition falsy :: "string option \<Rightarrow> bool" where
  "falsy a = (a = None \<or> a = Some [])"

text \<open>\<^verbatim>\<open>/[Tt]he answer is\s+(.+?)\.?\s*$/m\<close>\<close>

definition re_the_answer_is :: regex where
  "re_the_answer_is =
     seqs [one_of ''Tt'', lit ''he answer is'', Plus True wsp, Group 1 (Plus False dot),
           Opt (lit ''.''), Star True wsp, Eol True]"

text \<open>\<^verbatim>\<open>/####\s*(.+)/\<close>\<close>

definition re_hashes :: regex where
  "re_hashes = seqs [lit ''####'', Star True wsp, Group 1 (Plus True dot)]"

text \<open>\<^verbatim>\<open>/(?:therefore|thus|so|hence),?\s+(?:the answer is\s+)?(.+?)\.?\s*$/im\<close>\<close>

definition re_conclusion :: regex where
  "re_conclusion =
     seqs [alts (liti ''therefore'') [liti ''thus'', liti ''so'', liti ''hence''],
           Opt (lit '',''), Plus True wsp,
           Opt (Seq (liti ''the answer is'') (Plus True wsp)),
           Group 1 (Plus False dot), Opt (lit ''.''), Star True wsp, Eol True]"

text \<open>\<^verbatim>\<open>/(?:final\s+)?answer:\s*(.+?)\.?\s*$/im\<close>\<close>

definition re_answer_label :: regex where
  "re_answer_label =
     seqs [Opt (Seq (liti ''final'') (Plus True wsp)), liti ''answer:'', Star True wsp,
           Group 1 (Plus False dot), Opt (lit ''.''), Star True wsp, Eol True]"

text \<open>\<^verbatim>\<open>/\.?\s*[Tt]he answer is\s+.*$/\<close> and \<^verbatim>\<open>/[.]+$/\<close>\<close>

definition re_embedded_answer :: regex where
  "re_embedded_answer =
     seqs [Opt (lit ''.''), Star True wsp, one_of ''Tt'', lit ''he answer is'', Plus True wsp,
           Star True dot, Eol False]"

definition re_trailing_dots :: regex where
  "re_trailing_dots = seqs [Plus True (lit ''.''), Eol False]"

text \<open>The text of group 1 of the first match of an expression, when there is one.\<close>

definition pattern_capture :: "regex \<Rightarrow> string \<Rightarrow> string option" where
  "pattern_capture r text = (case regex_exec r text of None \<Rightarrow> None | Some m \<Rightarrow> Some (cap m 1))"

text \<open>
  The end of extractAnswer: an embedded repeated phrase is cut off, then the periods at
  the end, and an empty rest is \<open>null\<close>.
\<close>

definition clean_answer :: "string \<Rightarrow> string option" where
  "clean_answer a =
     (let b = trim (replace_first re_embedded_answer [] a);
          c = trim (replace_first re_trailing_dots [] b)
      in if c = [] then None else Some c)"

definition extractAnswer :: "string \<Rightarrow> string option" where
  "extractAnswer text =
     (if text = [] then None
      else
        let a1 = (case pattern_capture re_the_answer_is text of
                    None \<Rightarrow> None
                  | Some x \<Rightarrow> Some (trim (filter (\<lambda>c. c \<noteq> CHR '','') x)));
            a2 = (if falsy a1
                  then (case pattern_capture re_hashes text of
                          None \<Rightarrow> a1 | Some x \<Rightarrow> Some (trim x))
                  else a1);
            a3 = (if falsy a2
                  then (case pattern_capture re_conclusion text of
                          None \<Rightarrow> a2 | Some x \<Rightarrow> Some (trim x))
                  else a2);
            a4 = (if falsy a3
                  then (case pattern_capture re_answer_label text of
                          None \<Rightarrow> a3 | Some x \<Rightarrow> Some (trim x))
                  else a3)
        in (case a4 of
              None \<Rightarrow> None
            | Some a \<Rightarrow> if a = [] then None else clean_answer a))"

text \<open>\<^verbatim>\<open>/^Action:\s*(\w+):\s*([\s\S]*?)(?=\nPAUSE|\n*$)/m\<close>\<close>

definition re_action :: regex where
  "re_action =
     seqs [Bol True, lit ''Action:'', Star True wsp, Group 1 (Plus True word_char), lit '':'',
           Star True wsp, Group 2 (Star False any_char),
           Look (Alt (lit (CHR 0x0A # ''PAUSE'')) (Seq (Star True (lit [CHR 0x0A])) (Eol True)))]"

record action =
  actionName :: string
  actionInput :: string

definition parseReActAction :: "string \<Rightarrow> action option" where
  "parseReActAction text =
     (case regex_exec re_action text of
        None \<Rightarrow> None
      | Some m \<Rightarrow> Some \<lparr>actionName = trim (cap m 1), actionInput = trim (cap m 2)\<rparr>)"

text \<open>\<^verbatim>\<open>/Answer:\s*([\s\S]*)/\<close>\<close>

definition re_react_answer :: regex where
  "re_react_answer = seqs [lit ''Answer:'', Star True wsp, Group 1 (Star True any_char)]"

definition parseReActAnswer :: "string \<Rightarrow> string option" where
  "parseReActAnswer text =
     (case regex_exec re_react_answer text of None \<Rightarrow> None | Some m \<Rightarrow> Some (trim (cap m 1)))"

record plan_step =
  description :: string
  variable :: string
  tool :: string
  toolInput :: string





text \<open>\<^verbatim>\<open>/^\s*\d+[.)]\s*(.+)/\<close> and \<^verbatim>\<open>/^\s*[-*]\s+(.+)/\<close>, run on one line at a time.\<close>

definition re_numbered :: regex where
  "re_numbered =
     seqs [Bol False, Star True wsp, Plus True digit, one_of ''.)'', Star True wsp,
           Group 1 (Plus True dot)]"

definition re_bullet :: regex where
  "re_bullet =
     seqs [Bol False, Star True wsp, one_of ''-*'', Plus True wsp, Group 1 (Plus True dot)]"

definition matching_lines :: "regex \<Rightarrow> string list \<Rightarrow> string list" where
  "matching_lines r lines =
     concat (map (\<lambda>line. case regex_exec r line of None \<Rightarrow> [] | Some m \<Rightarrow> [trim (cap m 1)]) lines)"

definition parsePlanSteps :: "string \<Rightarrow> string list" where
  "parsePlanSteps text =
     (let lines = split_lines text;
          steps = matching_lines re_numbered lines
      in if length steps > 0 then steps else matching_lines re_bullet lines)"


section \<open>Plain JavaScript objects\<close>

text \<open>
  An object created by \<open>{}\<close> is the list of its own properties in the order of their
  creation, together with what it inherits from \<open>Object.prototype\<close>.  Reading a key
  that is not an own property finds the inherited member when the key is one of the
  names below, and \<open>undefined\<close> otherwise.
\<close>

type_synonym 'v jsobj = "(string \<times> 'v) list"

definition object_prototype_keys :: "string list" where
  "object_prototype_keys =
     [''constructor'', ''__defineGetter__'', ''__defineSetter__'', ''hasOwnProperty'',
      ''__lookupGetter__'', ''__lookupSetter__'', ''isPrototypeOf'', ''propertyIsEnumerable'',
      ''toString'', ''valueOf'', ''__proto__'', ''toLocaleString'']"

datatype 'v member = Own 'v | Inherited | Absent

definition obj_read :: "'v jsobj \<Rightarrow> string \<Rightarrow> 'v member" where
  "obj_read obj k =
     (case map_of obj k of
        Some v \<Rightarrow> Own v
      | None \<Rightarrow> if k \<in> set object_prototype_keys then Inherited else Absent)"

text \<open>
  \<open>obj[k] = v\<close>: an own property keeps its place, a new one is added at the end, and
  the key \<open>__proto__\<close> is the inherited setter, which creates no property.
\<close>

definition obj_set :: "'v jsobj \<Rightarrow> string \<Rightarrow> 'v \<Rightarrow> 'v jsobj" where
  "obj_set obj k v =
     (if k = ''__proto__'' then obj
      else if k \<in> fst ` set obj then map (\<lambda>(k', v'). if k' = k then (k', v) else (k', v')) obj
      else obj @ [(k, v)])"

text \<open>
  The order of \<open>Object.keys\<close>, \<open>Object.entries\<close> and \<open>Object.values\<close>: the keys that
  are array indices (canonical decimal numerals below \<open>2^32 - 1\<close>) in ascending
  numeric order, then the other keys in the order of their creation.
\<close>

definition digit_value :: "char \<Rightarrow> nat" where
  "digit_value c = (case map_of (zip ''0123456789'' [0, 1, 2, 3, 4, 5, 6, 7, 8, 9]) c of
                      Some d \<Rightarrow> d | None \<Rightarrow> 0)"

definition nat_of_digits :: "string \<Rightarrow> nat" where
  "nat_of_digits s = foldl (\<lambda>n c. 10 * n + digit_value c) 0 s"

definition is_array_index :: "string \<Rightarrow> bool" where
  "is_array_index k =
     (k \<noteq> [] \<and> list_all is_digit k \<and> (k = ''0'' \<or> hd k \<noteq> CHR ''0'') \<and> nat_of_digits k < 4294967295)"

definition obj_entries :: "'v jsobj \<Rightarrow> (string \<times> 'v) list" where
  "obj_entries obj =
     sort_key (\<lambda>(k, v). nat_of_digits k) (filter (\<lambda>(k, v). is_array_index k) obj)
       @ filter (\<lambda>(k, v). \<not> is_array_index k) obj"

definition obj_keys :: "'v jsobj \<Rightarrow> string list" where
  "obj_keys obj = map fst (obj_entries obj)"

definition obj_values :: "'v jsobj \<Rightarrow> 'v list" where
  "obj_values obj = map snd (obj_entries obj)"


section \<open>frameworks/tools.js\<close>

text \<open>
  What the tools find outside the program.  \<open>wiki_search q\<close> is the first Wikipedia
  request of \<open>wikipedia(q)\<close> with its \<open>json()\<close> (\<open>Inl\<close>: the fetch or the parse rejects;
  \<open>Inr\<close>: \<open>data.query?.search || []\<close>); \<open>wiki_summary t\<close> is the second, for the title
  \<open>t\<close> (\<open>Inr\<close>: \<open>page?.extract\<close>); \<open>openai_fetch q key\<close> is the request of
  openaiWebSearch; \<open>evaluate s\<close> is the JavaScript engine on
  \<^verbatim>\<open>new Function('"use strict"; return (' + s + ')')()\<close>: it throws an error with a
  message (\<open>Inl\<close>) or gives a value, taken with its \<open>String(...)\<close> (\<open>Inr\<close>); the
  remaining fields are the readings of \<open>new Date()\<close>.
\<close>

record search_hit =
  title :: string
  snippet :: string

record world =
  wiki_search :: "string \<Rightarrow> exn + search_hit list"
  wiki_summary :: "string \<Rightarrow> exn + string option"
  openai_fetch :: "string \<Rightarrow> string \<Rightarrow> fetch_result"
  evaluate :: "string \<Rightarrow> string + string"
  now_iso :: string
  now_day :: nat
  now_local_date :: string
  now_local_time :: string

text \<open>\<^verbatim>\<open>/<[^>]*>/g\<close>\<close>

definition re_tag :: regex where
  "re_tag = seqs [lit ''<'', Star True (Chr (\<lambda>c. c \<noteq> CHR ''>'')), lit ''>'']"

definition wikipedia :: "world \<Rightarrow> string \<Rightarrow> exn + string" where
  "wikipedia w query =
     (case wiki_search w query of
        Inl e \<Rightarrow> Inl e
      | Inr results \<Rightarrow>
          (case results of
             [] \<Rightarrow> Inr ''No Wikipedia results found.''
           | first_hit # _ \<Rightarrow>
               let snippets = join [CHR 0x0A, CHR 0x0A] (map (\<lambda>r. replace_all re_tag [] (snippet r)) results);
                   topTitle = title first_hit
               in (case wiki_summary w topTitle of
                     Inl err \<Rightarrow> Inr snippets
                   | Inr None \<Rightarrow> Inr snippets
                   | Inr (Some extract) \<Rightarrow>
                       if extract \<noteq> [] \<and> length extract > 20
                       then Inr ((''Summary of '' @ [CHR 0x22]) @ topTitle @ [CHR 0x22] @ '':'' @ [CHR 0x0A] @ take 800 extract
                                 @ [CHR 0x0A, CHR 0x0A] @ ''---'' @ [CHR 0x0A] @ ''Search snippets:''
                                 @ [CHR 0x0A] @ snippets)
                       else Inr snippets)))"

text \<open>
  Every way out of openaiWebSearch other than a non-empty content is \<open>wikipedia(query)\<close>:
  no key, a rejected fetch, a status that is not ok, a body that does not parse, no
  content.
\<close>

definition openaiWebSearch :: "world \<Rightarrow> string \<Rightarrow> string option \<Rightarrow> exn + string" where
  "openaiWebSearch w query apiKey =
     (case apiKey of
        None \<Rightarrow> wikipedia w query
      | Some key \<Rightarrow>
          if key = [] then wikipedia w query
          else (case openai_fetch w query key of
                  FetchThrows err \<Rightarrow> wikipedia w query
                | Response st body \<Rightarrow>
                    if \<not> response_ok st then wikipedia w query
                    else (case body of
                            Inl err \<Rightarrow> wikipedia w query
                          | Inr data \<Rightarrow>
                              (case choice_message data of
                                 None \<Rightarrow> wikipedia w query
                               | Some None \<Rightarrow> wikipedia w query
                               | Some (Some c) \<Rightarrow> if c = [] then wikipedia w query else Inr c))))"

text \<open>\<^verbatim>\<open>expression.replace(/[^0-9+\-*/().%\s]/g, '')\<close> keeps the code units of the class.\<close>

definition calc_allowed :: "char \<Rightarrow> bool" where
  "calc_allowed c = (is_digit c \<or> c \<in> set ''+-*/().%'' \<or> js_whitespace c)"

definition DISALLOWED_MESSAGE :: string where
  "DISALLOWED_MESSAGE =
     ''Error: expression contains disallowed characters. Only numbers and +-*/().% are allowed.''"

definition calculate :: "world \<Rightarrow> string \<Rightarrow> string" where
  "calculate w expression =
     (let sanitized = filter calc_allowed expression in
      if sanitized \<noteq> trim expression then DISALLOWED_MESSAGE
      else (case evaluate w sanitized of
              Inr result \<Rightarrow> result
            | Inl message \<Rightarrow> ''Calculation error: '' @ message))"

definition dayNames :: "string list" where
  "dayNames = [''Sunday'', ''Monday'', ''Tuesday'', ''Wednesday'', ''Thursday'', ''Friday'', ''Saturday'']"

definition currentDatetime :: "world \<Rightarrow> string" where
  "currentDatetime w =
     ''Current date and time (UTC): '' @ now_iso w @ ''. Day of week: ''
       @ (if now_day w < 7 then dayNames ! now_day w else ''undefined'')
       @ ''. Local date: '' @ now_local_date w @ ''; local time: '' @ now_local_time w @ ''.''"

record tool_entry =
  tool_name :: string
  tool_description :: string
  execute :: "world \<Rightarrow> string \<Rightarrow> string option \<Rightarrow> exn + string"

definition WIKIPEDIA_DESCRIPTION :: string where
  "WIKIPEDIA_DESCRIPTION =
     ''Search Wikipedia for information with article summaries. Input: a sear''
     @ ''ch query string.''"

definition SEARCH_DESCRIPTION :: string where
  "SEARCH_DESCRIPTION =
     ''Search the web for current, real-world information. Returns comprehens''
     @ ''ive results from across the internet. Input: a search query string.''"

definition CALCULATE_DESCRIPTION :: string where
  "CALCULATE_DESCRIPTION =
     ''Evaluate a math expression. Input: a math expression like '' @ [CHR 0x22]
     @ ''4 * 7 / 3'' @ [CHR 0x22] @ ''. Only numbers and basic operators allowed.''"

definition DATETIME_DESCRIPTION :: string where
  "DATETIME_DESCRIPTION =
     ''Get the current date and time (UTC and local). Input: ignored (no inpu''
     @ ''t required).''"

definition toolRegistry :: "tool_entry jsobj" where
  "toolRegistry =
     [(''wikipedia'', \<lparr>tool_name = ''wikipedia'', tool_description = WIKIPEDIA_DESCRIPTION,
                       execute = (\<lambda>w input apiKey. wikipedia w input)\<rparr>),
      (''search'', \<lparr>tool_name = ''search'', tool_description = SEARCH_DESCRIPTION,
                    execute = (\<lambda>w input apiKey. openaiWebSearch w input apiKey)\<rparr>),
      (''websearch'', \<lparr>tool_name = ''websearch'', tool_description = SEARCH_DESCRIPTION,
                       execute = (\<lambda>w input apiKey. openaiWebSearch w input apiKey)\<rparr>),
      (''calculate'', \<lparr>tool_name = ''calculate'', tool_description = CALCULATE_DESCRIPTION,
                       execute = (\<lambda>w input apiKey. Inr (calculate w input))\<rparr>),
      (''current_datetime'', \<lparr>tool_name = ''current_datetime'', tool_description = DATETIME_DESCRIPTION,
                              execute = (\<lambda>w input apiKey. Inr (currentDatetime w))\<rparr>),
      (''datetime'', \<lparr>tool_name = ''datetime'', tool_description = DATETIME_DESCRIPTION,
                      execute = (\<lambda>w input apiKey. Inr (currentDatetime w))\<rparr>)]"

text \<open>One line per description, the first tool with a description standing for its aliases.\<close>

fun unique_descriptions :: "string list \<Rightarrow> tool_entry list \<Rightarrow> tool_entry list" where
  "unique_descriptions seen [] = []"
| "unique_descriptions seen (t # ts) =
     (if tool_description t \<in> set seen then unique_descriptions seen ts
      else t # unique_descriptions (tool_description t # seen) ts)"

definition getToolDescriptions :: string where
  "getToolDescriptions =
     join [CHR 0x0A] (map (\<lambda>t. tool_name t @ '': '' @ tool_description t)
                         (unique_descriptions [] (obj_values toolRegistry)))"

text \<open>
  executeTool.  A name that is no own key of the registry but a member inherited from
  \<open>Object.prototype\<close> gives a truthy \<open>tool\<close> without an \<open>execute\<close> method: the call
  \<open>tool.execute(input, apiKey)\<close> throws a TypeError.
\<close>

definition executeTool :: "world \<Rightarrow> string \<Rightarrow> string \<Rightarrow> string option \<Rightarrow> exn + string" where
  "executeTool w name input apiKey =
     (case obj_read toolRegistry (toLowerCase name) of
        Absent \<Rightarrow>
          Inr (''Error: Unknown tool '' @ [CHR 0x22] @ name @ [CHR 0x22] @ ''. Available tools: ''
               @ join '', '' (obj_keys toolRegistry))
      | Inherited \<Rightarrow> Inl (TypeError ''tool.execute is not a function'')
      | Own t \<Rightarrow> execute t w input apiKey)"


section \<open>frameworks/cot.js: the answer aggregator\<close>

record message =
  role :: string
  msg_content :: string

text \<open>
  The language model as the engines see it: the outcome of one \<open>callLLM\<close>, given the
  number of the call within the run and the messages sent.
\<close>

type_synonym llm = "nat \<Rightarrow> message list \<Rightarrow> exn + LLMResult"

text \<open>\<^verbatim>\<open>/\.?\s*the answer is\b.*$/gi\<close>\<close>

definition re_norm_answer :: regex where
  "re_norm_answer =
     seqs [Opt (lit ''.''), Star True wsp, liti ''the answer is'', WordB, Star True dot, Eol False]"

text \<open>\<^verbatim>\<open>/^(the|a|an)\s+/i\<close>\<close>

definition re_article :: regex where
  "re_article = seqs [Bol False, Group 1 (alts (liti ''the'') [liti ''a'', liti ''an'']), Plus True wsp]"

text \<open>\<^verbatim>\<open>/^[\s.,;:!?"'()]+|[\s.,;:!?"'()]+$/g\<close>\<close>

definition is_edge_punct :: "char \<Rightarrow> bool" where
  "is_edge_punct c = (js_whitespace c \<or> c \<in> set (''.,;:!?()'' @ [CHR 0x22, CHR 0x27]))"

definition re_edges :: regex where
  "re_edges = Alt (seqs [Bol False, Plus True (Chr is_edge_punct)])
                  (seqs [Plus True (Chr is_edge_punct), Eol False])"

text \<open>\<^verbatim>\<open>/\s+/g\<close>\<close>

definition re_spaces :: regex where
  "re_spaces = Plus True wsp"

text \<open>
  basicNormalize, in two steps: the trimmed lower-case text (which is also the
  \<open>original\<close> of an entry), then the four replacements and the last \<open>trim\<close>.
\<close>

definition normalize_rest :: "string \<Rightarrow> string" where
  "normalize_rest s0 =
     (let s1 = replace_all re_norm_answer [] s0;
          s2 = replace_first re_article [] s1;
          s3 = replace_all re_edges [] s2;
          s4 = replace_all re_spaces '' '' s3
      in trim s4)"

definition basicNormalize :: "string \<Rightarrow> string" where
  "basicNormalize raw = normalize_rest (toLowerCase (trim raw))"

text \<open>
  areSimilar.  escapeRegex puts a backslash before every character that is special in
  a regular expression, so the expression built from \<open>shorter\<close> matches it literally:
  \<^verbatim>\<open>(?:^|\b)\<close>, the text of \<open>shorter\<close>, \<^verbatim>\<open>(?:\b|$)\<close>.
\<close>

definition similar_regex :: "string \<Rightarrow> regex" where
  "similar_regex shorter = seqs [Alt (Bol False) WordB, lit shorter, Alt WordB (Eol False)]"

definition areSimilar :: "string \<Rightarrow> string \<Rightarrow> bool" where
  "areSimilar a b =
     (if a = b then True
      else if length a < 2 \<or> length b < 2 then False
      else
        let shorter = (if length a \<le> length b then a else b);
            longer = (if length a \<le> length b then b else a)
        in regex_test (similar_regex shorter) longer)"

text \<open>Groups of answers: a count and, for each original form, how often it occurred.\<close>

record vote_group =
  count :: nat
  originals :: "nat jsobj"

text \<open>
  \<open>originals[orig] = (originals[orig] || 0) + cnt\<close>.  An original is the lower-case
  trimmed answer of an entry whose key was found not to be inherited, so it is never
  the name of an inherited member here, and only own properties are read.
\<close>

definition bump :: "nat jsobj \<Rightarrow> string \<Rightarrow> nat \<Rightarrow> nat jsobj" where
  "bump os orig cnt = obj_set os orig ((case map_of os orig of None \<Rightarrow> 0 | Some n \<Rightarrow> n) + cnt)"

text \<open>
  Step 2.  \<open>if (!normGroups[key])\<close> reads the key through the prototype: for the keys
  \<open>constructor\<close> and \<open>__proto__\<close> the inherited member is truthy, no group is created,
  and \<open>normGroups[key].originals[original]\<close> throws a TypeError.
\<close>

definition add_entry :: "vote_group jsobj \<Rightarrow> string \<times> string \<Rightarrow> exn + vote_group jsobj" where
  "add_entry normGroups e =
     (let original = fst e; normalized = snd e;
          key = (if normalized \<noteq> [] then normalized else original)
      in case obj_read normGroups key of
           Inherited \<Rightarrow> Inl (TypeError ''Cannot read properties of undefined'')
         | Absent \<Rightarrow> Inr (obj_set normGroups key \<lparr>count = 1, originals = bump [] original 1\<rparr>)
         | Own g \<Rightarrow> Inr (obj_set normGroups key
                            \<lparr>count = count g + 1, originals = bump (originals g) original 1\<rparr>))"

fun group_entries :: "vote_group jsobj \<Rightarrow> (string \<times> string) list \<Rightarrow> exn + vote_group jsobj" where
  "group_entries normGroups [] = Inr normGroups"
| "group_entries normGroups (e # es) =
     (case add_entry normGroups e of
        Inl err \<Rightarrow> Inl err
      | Inr normGroups' \<Rightarrow> group_entries normGroups' es)"

text \<open>Step 3.  The keys by descending count (the sort is stable), merged one by one.\<close>

definition group_count :: "vote_group jsobj \<Rightarrow> string \<Rightarrow> nat" where
  "group_count groups k = (case map_of groups k of None \<Rightarrow> 0 | Some g \<Rightarrow> count g)"

definition group_originals :: "vote_group jsobj \<Rightarrow> string \<Rightarrow> nat jsobj" where
  "group_originals groups k = (case map_of groups k of None \<Rightarrow> [] | Some g \<Rightarrow> originals g)"

definition sortedKeys :: "vote_group jsobj \<Rightarrow> string list" where
  "sortedKeys normGroups = sort_key (\<lambda>k. - int (group_count normGroups k)) (obj_keys normGroups)"

definition merge_key :: "vote_group jsobj \<Rightarrow> vote_group jsobj \<Rightarrow> string \<Rightarrow> vote_group jsobj" where
  "merge_key normGroups merged key =
     (let fresh = obj_set merged key
                    \<lparr>count = group_count normGroups key, originals = group_originals normGroups key\<rparr>
      in case find (\<lambda>canonical. areSimilar key canonical) (obj_keys merged) of
           None \<Rightarrow> fresh
         | Some mergedInto \<Rightarrow>
             if mergedInto = [] then fresh
             else obj_set merged mergedInto
                    \<lparr>count = group_count merged mergedInto + group_count normGroups key,
                     originals = foldl (\<lambda>os (orig, cnt). bump os orig cnt)
                                   (group_originals merged mergedInto)
                                   (obj_entries (group_originals normGroups key))\<rparr>)"

definition merge_groups :: "vote_group jsobj \<Rightarrow> vote_group jsobj" where
  "merge_groups normGroups = foldl (merge_key normGroups) [] (sortedKeys normGroups)"

record vote =
  answer :: "string option"
  votes :: nat
  distribution :: "nat jsobj"
  extraUsage :: "usage option"

text \<open>
  buildVoteResult.  The label of a group is its most frequent original, the first one
  among equals; a group without originals gets the key \<open>null\<close> in the distribution.
\<close>

definition display_key :: "nat jsobj \<Rightarrow> string option" where
  "display_key os =
     fst (foldl (\<lambda>(displayKey, maxOrigCount) (orig, cnt).
                   if cnt > maxOrigCount then (Some orig, cnt) else (displayKey, maxOrigCount))
                (None, 0) (obj_entries os))"

definition buildVoteResult :: "vote_group jsobj \<Rightarrow> nat \<Rightarrow> usage option \<Rightarrow> vote" where
  "buildVoteResult groups totalAnswers extra =
     (let (bestKey, bestCount, dist) =
            foldl (\<lambda>(bestKey, bestCount, dist) g.
                     let displayKey = display_key (originals g);
                         dist' = obj_set dist (case displayKey of None \<Rightarrow> ''null'' | Some d \<Rightarrow> d) (count g)
                     in if count g > bestCount then (displayKey, count g, dist')
                        else (bestKey, bestCount, dist'))
                  (None, 0, []) (obj_values groups)
      in \<lparr>answer = bestKey, votes = bestCount, distribution = dist, extraUsage = extra\<rparr>)"

text \<open>
  canonicalizeWithLLM.  The prompt lists the answers with their numbers; each line of
  the reply that matches \<^verbatim>\<open>/(\d+)\s*->\s*(.+)/\<close> with a number in range maps that answer
  to the trimmed lower-case label.  (The arrow of the prompt, outside the modelled
  range of code units, is written \<open>->\<close>.)
\<close>

definition re_mapping_line :: regex where
  "re_mapping_line =
     seqs [Group 1 (Plus True digit), Star True wsp, lit ''->'', Star True wsp, Group 2 (Plus True dot)]"

definition numbered_answers :: "string list \<Rightarrow> string" where
  "numbered_answers uniqueAnswers =
     join [CHR 0x0A] (map (\<lambda>(i, a). string_of_nat (i + 1) @ ''. '' @ [CHR 0x22] @ a @ [CHR 0x22])
                         (enumerate 0 uniqueAnswers))"

definition canonicalize_prompt :: "string list \<Rightarrow> string" where
  "canonicalize_prompt uniqueAnswers =
     ''I have these answers to the same question from multiple reasoning path''
     @ ''s. Group answers that mean the same thing (even if worded differently,''
     @ '' or one is more detailed) and assign each the same short canonical for'' @ ''m.''
     @ [CHR 0x0A, CHR 0x0A] @ ''Answers:'' @ [CHR 0x0A]
     @ numbered_answers uniqueAnswers
     @ [CHR 0x0A, CHR 0x0A]
     @ ''For EACH number, output its canonical form using EXACTLY this format (''
     @ ''one per line):'' @ [CHR 0x0A] @ ''1 -> canonical form'' @ [CHR 0x0A]
     @ ''2 -> canonical form'' @ [CHR 0x0A, CHR 0x0A] @ ''Rules:'' @ [CHR 0x0A]
     @ ''- If answers mean the same thing, give them the SAME canonical form'' @ [CHR 0x0A]
     @ ''- Use the simplest, shortest correct form as canonical'' @ [CHR 0x0A]
     @ ''- Preserve key details (e.g. '' @ [CHR 0x22] @ ''Belgrade, Serbia'' @ [CHR 0x22]
     @ '' and '' @ [CHR 0x22] @ ''Belgrade'' @ [CHR 0x22] @ '' are the same -> use ''
     @ [CHR 0x22] @ ''Belgrade, Serbia'' @ [CHR 0x22] @ '')'' @ [CHR 0x0A]
     @ ''- Do NOT add information not present in any answer''"

definition read_mapping :: "string list \<Rightarrow> string \<Rightarrow> string jsobj" where
  "read_mapping uniqueAnswers reply =
     foldl (\<lambda>mapping line.
              case regex_exec re_mapping_line line of
                None \<Rightarrow> mapping
              | Some m \<Rightarrow>
                  let n = nat_of_digits (cap m 1) in
                  if 1 \<le> n \<and> n - 1 < length uniqueAnswers
                  then obj_set mapping (uniqueAnswers ! (n - 1)) (toLowerCase (trim (cap m 2)))
                  else mapping)
           [] (split_lines reply)"

definition canonicalizeWithLLM :: "llm \<Rightarrow> nat \<Rightarrow> string list \<Rightarrow> exn + string jsobj \<times> usage" where
  "canonicalizeWithLLM ask n uniqueAnswers =
     (case ask n [\<lparr>role = ''user'', msg_content = canonicalize_prompt uniqueAnswers\<rparr>] of
        Inl err \<Rightarrow> Inl err
      | Inr result \<Rightarrow>
          (case content result of
             None \<Rightarrow> Inl (null_read ''split'')
           | Some reply \<Rightarrow> Inr (read_mapping uniqueAnswers reply, usage result)))"

text \<open>
  Step 4: the groups rebuilt from the labels of the model.  A label that is the name
  of an inherited member makes the rebuilding throw, inside the \<open>try\<close>.
\<close>

definition add_canonical :: "string jsobj \<Rightarrow> vote_group jsobj \<Rightarrow> string \<Rightarrow> exn + vote_group jsobj" where
  "add_canonical mapping llmGroups original =
     (let canonical = (case map_of mapping original of
                         None \<Rightarrow> original
                       | Some c \<Rightarrow> if c = [] then original else c)
      in case obj_read llmGroups canonical of
           Inherited \<Rightarrow> Inl (TypeError ''Cannot read properties of undefined'')
         | Absent \<Rightarrow> Inr (obj_set llmGroups canonical \<lparr>count = 1, originals = bump [] original 1\<rparr>)
         | Own g \<Rightarrow> Inr (obj_set llmGroups canonical
                            \<lparr>count = count g + 1, originals = bump (originals g) original 1\<rparr>))"

fun rebuild_groups :: "string jsobj \<Rightarrow> vote_group jsobj \<Rightarrow> string list \<Rightarrow> exn + vote_group jsobj" where
  "rebuild_groups mapping llmGroups [] = Inr llmGroups"
| "rebuild_groups mapping llmGroups (original # rest) =
     (case add_canonical mapping llmGroups original of
        Inl err \<Rightarrow> Inl err
      | Inr llmGroups' \<Rightarrow> rebuild_groups mapping llmGroups' rest)"

text \<open>The elements of \<open>[...new Set(xs)]\<close>: each one once, in the order of first occurrence.\<close>

definition unique :: "string list \<Rightarrow> string list" where
  "unique xs = rev (remdups (rev xs))"

text \<open>
  smartMajorityVote.  The answers are strings or \<open>null\<close>; \<open>n\<close> is the number of the
  call the canonicalization would be.
\<close>

definition smartMajorityVote :: "llm \<Rightarrow> nat \<Rightarrow> string option \<Rightarrow> string option list \<Rightarrow> exn + vote" where
  "smartMajorityVote ask n apiKey answers =
     (let validAnswers = concat (map (\<lambda>a. case a of None \<Rightarrow> [] | Some s \<Rightarrow> [s]) answers) in
      if length validAnswers = 0
      then Inr \<lparr>answer = None, votes = 0, distribution = [], extraUsage = None\<rparr>
      else
        let entries = map (\<lambda>a. (toLowerCase (trim a), basicNormalize a)) validAnswers in
        case group_entries [] entries of
          Inl err \<Rightarrow> Inl err
        | Inr normGroups \<Rightarrow>
            let merged = merge_groups normGroups in
            if length (obj_keys merged) > 1 \<and> \<not> falsy apiKey
            then (case canonicalizeWithLLM ask n (unique (map fst entries)) of
                    Inl err \<Rightarrow> Inr (buildVoteResult merged (length validAnswers) None)
                  | Inr (mapping, u) \<Rightarrow>
                      (case rebuild_groups mapping [] (map fst entries) of
                         Inl err \<Rightarrow> Inr (buildVoteResult merged (length validAnswers) (Some u))
                       | Inr llmGroups \<Rightarrow>
                           Inr (buildVoteResult llmGroups (length validAnswers) (Some u))))
            else Inr (buildVoteResult merged (length validAnswers) None))"


section \<open>frameworks/cot.js: runCoT\<close>

definition add_usage :: "usage \<Rightarrow> usage \<Rightarrow> usage" where
  "add_usage acc u =
     \<lparr>prompt_tokens = prompt_tokens acc + prompt_tokens u,
      completion_tokens = completion_tokens acc + completion_tokens u,
      total_tokens = total_tokens acc + total_tokens u\<rparr>"

definition sumUsage :: "usage list \<Rightarrow> usage" where
  "sumUsage usageArray = foldl add_usage zero_usage usageArray"

text \<open>
  The fixed texts of the prompts.  (The dash of the synthesis prompt and of the
  placeholder answer, outside the modelled range of code units, is written \<open>-\<close>.)
\<close>

definition FEW_SHOT_EXEMPLARS :: string where
  "FEW_SHOT_EXEMPLARS =
     ''Q: Roger has 5 tennis balls. He buys 2 more cans of tennis balls. Each''
     @ '' can has 3 tennis balls. How many tennis balls does he have now?'' @ [CHR 0x0A]
     @ ''A: Roger started with 5 balls. 2 cans of 3 tennis balls each is 2 * 3 ''
     @ ''= 6 tennis balls. 5 + 6 = 11. The answer is 11.'' @ [CHR 0x0A, CHR 0x0A]
     @ ''Q: The cafeteria had 23 apples. If they used 20 to make lunch and boug''
     @ ''ht 6 more, how many apples do they have?'' @ [CHR 0x0A]
     @ ''A: The cafeteria had 23 apples originally. They used 20 to make lunch.''
     @ '' So they had 23 - 20 = 3. They bought 6 more apples, so they have 3 + ''
     @ ''6 = 9. The answer is 9.'' @ [CHR 0x0A, CHR 0x0A]
     @ ''Q: Shawn has five toys. For Christmas, he got two toys each from his m''
     @ ''om and dad. How many toys does he have now?'' @ [CHR 0x0A]
     @ ''A: Shawn started with 5 toys. He got 2 from mom and 2 from dad, that i''
     @ ''s 2 + 2 = 4 more toys. 5 + 4 = 9. The answer is 9.'' @ [CHR 0x0A, CHR 0x0A]
     @ ''Q: There were nine computers in the server room. Five more computers w''
     @ ''ere installed each day, from monday to thursday. How many computers ar''
     @ ''e now in the server room?'' @ [CHR 0x0A]
     @ ''A: There are 4 days from monday to thursday. 5 computers were added ea''
     @ ''ch day, so 5 * 4 = 20 computers were added. 9 + 20 = 29. The answer is'' @ '' 29.''"

definition buildPrompt :: "string \<Rightarrow> string \<Rightarrow> string" where
  "buildPrompt question mode =
     (if mode = ''zero-shot''
      then ''Q: ''
     @ question
     @ [CHR 0x0A] @ ''A: Let'' @ [CHR 0x27] @ ''s think step by step.''
      else FEW_SHOT_EXEMPLARS
     @ [CHR 0x0A, CHR 0x0A] @ ''Q: ''
     @ question
     @ [CHR 0x0A] @ ''A: Let'' @ [CHR 0x27] @ ''s think step by step.'')"

definition COT_SYSTEM :: string where
  "COT_SYSTEM =
     ''You are a helpful assistant that solves problems step by step. Always ''
     @ ''end your reasoning with '' @ [CHR 0x22] @ ''The answer is <your answer>.''
     @ [CHR 0x22]"

definition pathSummaries :: "string option list \<Rightarrow> string" where
  "pathSummaries paths =
     join [CHR 0x0A, CHR 0x0A]
       (map (\<lambda>(i, p). ''--- Path '' @ string_of_nat (i + 1) @ '' ---'' @ [CHR 0x0A] @ js_String p)
            (enumerate 0 paths))"

definition synthesis_prompt :: "string \<Rightarrow> string option list \<Rightarrow> string" where
  "synthesis_prompt question paths =
     ''You were asked this question: '' @ [CHR 0x22]
     @ question
     @ [CHR 0x22, CHR 0x0A, CHR 0x0A]
     @ ''Multiple reasoning paths explored different angles. Here they are:''
     @ [CHR 0x0A, CHR 0x0A]
     @ pathSummaries paths
     @ [CHR 0x0A, CHR 0x0A] @ ''Now synthesize the BEST comprehensive answer by:'' @ [CHR 0x0A]
     @ ''1. Identifying the strongest ideas and insights across all paths'' @ [CHR 0x0A]
     @ ''2. Noting where multiple paths agree (higher confidence points)'' @ [CHR 0x0A]
     @ ''3. Combining complementary ideas into one cohesive response'' @ [CHR 0x0A]
     @ ''4. Dropping weak, redundant, or contradictory points'' @ [CHR 0x0A, CHR 0x0A]
     @ ''Write ONE clear, well-structured final answer using markdown formattin''
     @ ''g (headings, bold, lists, tables as appropriate). Do not reference the''
     @ '' individual paths - just give the best synthesized answer.''"

definition EXTRACTION_FAILED :: string where
  "EXTRACTION_FAILED = ''[Extraction failed - see reasoning paths]''"

text \<open>
  The outcome of \<open>classifyQuestionSmart\<close>, which always resolves: the type of the
  question and the usage of the call it made, if it made one.
\<close>

record classification =
  ctype :: string
  cusage :: "usage option"

text \<open>
  The result of runCoT without \<open>timeMs\<close>.  The confidence is the exact quotient; \<open>None\<close>
  is the \<open>null\<close> of the open-ended case.  A path is the content of a sample, and the
  synthesized answer the content of the synthesis: strings or \<open>null\<close>.
\<close>

record CoTResult =
  questionType :: string
  paths :: "string option list"
  answers :: "string option list"
  voteCounts :: "nat jsobj option"
  synthesizedAnswer :: "string option"
  finalAnswer :: "string option"
  confidence :: "rat option"
  extractionFailures :: nat
  cot_usage :: usage
  llmCalls :: nat

text \<open>\<open>Promise.all\<close>: the results in order when every call resolves, a rejection otherwise.\<close>

fun all_resolved :: "(exn + 'a) list \<Rightarrow> exn + 'a list" where
  "all_resolved [] = Inr []"
| "all_resolved (Inl err # rs) = Inl err"
| "all_resolved (Inr x # rs) = (case all_resolved rs of Inl err \<Rightarrow> Inl err | Inr xs \<Rightarrow> Inr (x # xs))"

definition runCoT ::
  "llm \<Rightarrow> classification \<Rightarrow> string option \<Rightarrow> string \<Rightarrow> nat \<Rightarrow> string \<Rightarrow> exn + CoTResult" where
  "runCoT ask cls apiKey question nSamples mode =
     (let messages = [\<lparr>role = ''system'', msg_content = COT_SYSTEM\<rparr>,
                      \<lparr>role = ''user'', msg_content = buildPrompt question mode\<rparr>]
      in case all_resolved (map (\<lambda>i. ask i messages) [0..<nSamples]) of
           Inl err \<Rightarrow> Inl err
         | Inr results \<Rightarrow>
             let ps = map content results;
                 usages = map usage results @ (case cusage cls of None \<Rightarrow> [] | Some u \<Rightarrow> [u]);
                 classifierCalls = (case cusage cls of None \<Rightarrow> 0 | Some u \<Rightarrow> 1)
             in if ctype cls = ''open-ended''
                then (case ask nSamples [\<lparr>role = ''user'', msg_content = synthesis_prompt question ps\<rparr>] of
                        Inl err \<Rightarrow> Inl err
                      | Inr synthesis \<Rightarrow>
                          Inr \<lparr>questionType = ''open-ended'', paths = ps, answers = map (\<lambda>p. None) ps,
                               voteCounts = None, synthesizedAnswer = content synthesis,
                               finalAnswer = content synthesis, confidence = None,
                               extractionFailures = 0,
                               cot_usage = sumUsage (usages @ [usage synthesis]),
                               llmCalls = nSamples + 1 + classifierCalls\<rparr>)
                else
                  let extracted = map (\<lambda>p. case p of None \<Rightarrow> None | Some t \<Rightarrow> extractAnswer t) ps;
                      failures = length (filter (\<lambda>a. a = None) extracted)
                  in case smartMajorityVote ask nSamples apiKey extracted of
                       Inl err \<Rightarrow> Inl err
                     | Inr v \<Rightarrow>
                         let validCount = length (filter (\<lambda>a. a \<noteq> None) extracted)
                         in Inr \<lparr>questionType = ''factual'', paths = ps, answers = extracted,
                                 voteCounts = Some (distribution v), synthesizedAnswer = None,
                                 finalAnswer = (if validCount > 0 then answer v else Some EXTRACTION_FAILED),
                                 confidence = Some (if validCount > 0 then of_nat (votes v) / of_nat nSamples else 0),
                                 extractionFailures = failures,
                                 cot_usage = sumUsage (usages @ (case extraUsage v of None \<Rightarrow> [] | Some u \<Rightarrow> [u])),
                                 llmCalls = nSamples + (case extraUsage v of None \<Rightarrow> 0 | Some u \<Rightarrow> 1)
                                            + classifierCalls\<rparr>)"


section \<open>frameworks/react.js: runReAct\<close>

definition buildSystemPrompt :: string where
  "buildSystemPrompt =
     ''You run in a loop of Thought, Action, PAUSE, Observation.'' @ [CHR 0x0A]
     @ ''At the end of the loop you output an Answer.'' @ [CHR 0x0A, CHR 0x0A]
     @ ''Use Thought to describe your reasoning about the question.'' @ [CHR 0x0A]
     @ ''Use Action to run one of the available tools - then return PAUSE.'' @ [CHR 0x0A]
     @ ''Observation will be the result of running that action.'' @ [CHR 0x0A, CHR 0x0A]
     @ ''Your available tools are:'' @ [CHR 0x0A, CHR 0x0A]
     @ getToolDescriptions
     @ [CHR 0x0A, CHR 0x0A] @ ''To use a tool, respond with EXACTLY this format:''
     @ [CHR 0x0A, CHR 0x0A] @ ''Thought: <your reasoning about what to do next>''
     @ [CHR 0x0A] @ ''Action: <tool_name>: <tool_input>'' @ [CHR 0x0A] @ ''PAUSE''
     @ [CHR 0x0A, CHR 0x0A] @ ''You will be called again with:'' @ [CHR 0x0A]
     @ ''Observation: <result of the action>'' @ [CHR 0x0A, CHR 0x0A]
     @ ''When you have enough information to answer, respond with:'' @ [CHR 0x0A, CHR 0x0A]
     @ ''Thought: <your final reasoning>'' @ [CHR 0x0A] @ ''Answer: <your final answer>''
     @ [CHR 0x0A, CHR 0x0A] @ ''Important rules:'' @ [CHR 0x0A]
     @ ''- Always start with a Thought before taking an Action.'' @ [CHR 0x0A]
     @ ''- Only use ONE Action per turn.'' @ [CHR 0x0A]
     @ ''- After Action, write PAUSE and stop.'' @ [CHR 0x0A]
     @ ''- If an action returns an error, reason about it and try differently.'' @ [CHR 0x0A]
     @ ''- Do not make up information. Use tools to find facts.''"

definition NUDGE :: string where
  "NUDGE =
     ''Please respond with either:'' @ [CHR 0x0A] @ ''Thought: <reasoning>'' @ [CHR 0x0A]
     @ ''Action: <tool>: <input>'' @ [CHR 0x0A] @ ''PAUSE'' @ [CHR 0x0A, CHR 0x0A] @ ''Or:''
     @ [CHR 0x0A] @ ''Answer: <final answer>''"

record traj_event =
  ev_role :: string
  ev_content :: string
  ev_turn :: nat

text \<open>
  The result of runReAct without \<open>timeMs\<close>; \<open>react_error\<close> and \<open>truncated\<close> are set only
  when the turns ran out.  The calls of \<open>onStep\<close> change no state and are left out.
\<close>

record ReActResult =
  react_answer :: "string option"
  react_error :: "string option"
  truncated :: bool
  trajectory :: "traj_event list"
  turns :: nat
  react_usage :: usage
  react_llmCalls :: nat

definition exceeded_message :: "nat \<Rightarrow> string" where
  "exceeded_message maxTurns =
     ''Exceeded maximum turns (''
     @ string_of_nat maxTurns
     @ ''). The agent did not converge on a final answer.''"

text \<open>What follows the loop: a partial answer is looked for in the last event.\<close>

definition react_truncated :: "nat \<Rightarrow> nat \<Rightarrow> traj_event list \<Rightarrow> usage list \<Rightarrow> ReActResult" where
  "react_truncated maxTurns turn traj usages =
     (let lastContent = (if traj = [] then [] else ev_content (last traj));
          partialAnswer = parseReActAnswer lastContent
      in \<lparr>react_answer = (if falsy partialAnswer then None else partialAnswer),
          react_error = Some (exceeded_message maxTurns),
          truncated = True, trajectory = traj, turns = turn,
          react_usage = sumUsage usages, react_llmCalls = turn\<rparr>)"

text \<open>
  The \<open>while (turn < maxTurns)\<close> loop; the state is the turn, the messages, the
  trajectory and the usages.  Call number \<open>turn\<close> (counted from 0) is the call of
  turn \<open>turn + 1\<close>.  A reply whose content is \<open>null\<close> makes \<open>parseReActAnswer\<close> throw
  (\<open>text.match\<close> on \<open>null\<close>), and the run rejects.
\<close>

function react_loop ::
  "llm \<Rightarrow> world \<Rightarrow> string option \<Rightarrow> nat \<Rightarrow> nat \<Rightarrow> message list \<Rightarrow> traj_event list \<Rightarrow> usage list
     \<Rightarrow> exn + ReActResult" where
  "react_loop ask w apiKey maxTurns turn0 messages traj usages =
     (if turn0 < maxTurns then
        let turn = turn0 + 1 in
        (case ask turn0 messages of
           Inl err \<Rightarrow> Inl err
         | Inr result \<Rightarrow>
             (case content result of
                None \<Rightarrow> Inl (null_read ''match'')
              | Some response \<Rightarrow>
                  let usages1 = usages @ [usage result];
                      traj1 = traj @ [\<lparr>ev_role = ''assistant'', ev_content = response, ev_turn = turn\<rparr>];
                      ans = parseReActAnswer response
                  in if \<not> falsy ans
                     then Inr \<lparr>react_answer = ans, react_error = None, truncated = False,
                               trajectory = traj1, turns = turn,
                               react_usage = sumUsage usages1, react_llmCalls = turn\<rparr>
                     else (case parseReActAction response of
                             Some act \<Rightarrow>
                               (case executeTool w (actionName act) (actionInput act) apiKey of
                                  Inl err \<Rightarrow> Inl err
                                | Inr observation \<Rightarrow>
                                    react_loop ask w apiKey maxTurns turn
                                      (messages @ [\<lparr>role = ''assistant'', msg_content = response\<rparr>,
                                                   \<lparr>role = ''user'', msg_content = ''Observation: '' @ observation\<rparr>])
                                      (traj1 @ [\<lparr>ev_role = ''observation'', ev_content = observation, ev_turn = turn\<rparr>])
                                      usages1)
                           | None \<Rightarrow>
                               react_loop ask w apiKey maxTurns turn
                                 (messages @ [\<lparr>role = ''assistant'', msg_content = response\<rparr>,
                                              \<lparr>role = ''user'', msg_content = NUDGE\<rparr>])
                                 traj1 usages1)))
      else Inr (react_truncated maxTurns turn0 traj usages))"
  by pat_completeness auto
termination
  by (relation "measure (\<lambda>(ask, w, apiKey, maxTurns, turn0, messages, traj, usages). maxTurns - turn0)") auto

declare react_loop.simps [simp del]

definition runReAct :: "llm \<Rightarrow> world \<Rightarrow> string option \<Rightarrow> string \<Rightarrow> nat \<Rightarrow> exn + ReActResult" where
  "runReAct ask w apiKey question maxTurns =
     react_loop ask w apiKey maxTurns 0
       [\<lparr>role = ''system'', msg_content = buildSystemPrompt\<rparr>,
        \<lparr>role = ''user'', msg_content = question\<rparr>] [] []"


section \<open>frameworks/rewoo.js: runReWOO\<close>













text \<open>
  The result of runReWOO without \<open>timeMs\<close>.  A planner reply without content gives no
  step: \<open>regex.exec(null)\<close> searches the text \<open>null\<close>, where neither expression
  matches.  A solver reply without content makes \<open>solverResult.content.trim()\<close> throw.
\<close>

record ReWOOResult =
  planText :: "string option"
  steps :: "plan_step list"
  evidence :: "string option jsobj"
  rewoo_answer :: string
  rewoo_usage :: usage
  rewoo_llmCalls :: nat



section \<open>frameworks/planExecute.js\<close>

definition PLANNER_SYSTEM :: string where
  "PLANNER_SYSTEM =
     ''You are a planning agent. Given an objective, create a simple step-by-''
     @ ''step plan.'' @ [CHR 0x0A]
     @ ''This plan should involve individual tasks that, if executed correctly,''
     @ '' will yield the correct answer.'' @ [CHR 0x0A]
     @ ''Do not add superfluous steps. The result of the final step should be t''
     @ ''he final answer.'' @ [CHR 0x0A]
     @ ''Make sure each step has all the information needed. Do not skip steps.''
     @ [CHR 0x0A, CHR 0x0A] @ ''Output a numbered list of steps, one per line. Example:''
     @ [CHR 0x0A] @ ''1. Search for X'' @ [CHR 0x0A] @ ''2. Calculate Y based on the result''
     @ [CHR 0x0A] @ ''3. Provide the final answer''"

definition getExecutorSystem :: string where
  "getExecutorSystem =
     ''You are an execution agent. You execute a single step of a plan using ''
     @ ''available tools.'' @ [CHR 0x0A, CHR 0x0A] @ ''Your available tools are:''
     @ [CHR 0x0A]
     @ getToolDescriptions
     @ [CHR 0x0A, CHR 0x0A] @ ''To use a tool, respond with:'' @ [CHR 0x0A]
     @ ''Thought: <your reasoning>'' @ [CHR 0x0A] @ ''Action: <tool_name>: <tool_input>''
     @ [CHR 0x0A] @ ''PAUSE'' @ [CHR 0x0A, CHR 0x0A]
     @ ''When you have the result for this step, respond with:'' @ [CHR 0x0A]
     @ ''Answer: <result of this step>'' @ [CHR 0x0A, CHR 0x0A]
     @ ''Only execute the specific step you are given. Be concise.''"

definition REPLANNER_SYSTEM :: string where
  "REPLANNER_SYSTEM =
     ''You are a replanning agent. Evaluate progress and decide if the task i''
     @ ''s complete or needs more steps.''"

definition numbered :: "string list \<Rightarrow> string" where
  "numbered plan =
     join [CHR 0x0A] (map (\<lambda>(i, s). string_of_nat (i + 1) @ ''. '' @ s) (enumerate 0 plan))"

definition stepsStr :: "(string \<times> string) list \<Rightarrow> string" where
  "stepsStr pastSteps =
     join [CHR 0x0A, CHR 0x0A]
       (map (\<lambda>(step, result). ''Step: '' @ step @ [CHR 0x0A] @ ''Result: '' @ result) pastSteps)"

definition buildReplannerPrompt :: "string \<Rightarrow> string list \<Rightarrow> (string \<times> string) list \<Rightarrow> string" where
  "buildReplannerPrompt objective plan pastSteps =
     ''Your objective was:'' @ [CHR 0x0A]
     @ objective
     @ [CHR 0x0A, CHR 0x0A] @ ''Your original plan was:'' @ [CHR 0x0A]
     @ numbered plan
     @ [CHR 0x0A, CHR 0x0A] @ ''You have completed these steps:'' @ [CHR 0x0A]
     @ stepsStr pastSteps
     @ [CHR 0x0A, CHR 0x0A] @ ''Based on the results so far, decide:'' @ [CHR 0x0A]
     @ ''- If the objective is fully achieved, respond with: DONE: <final answe'' @ ''r>''
     @ [CHR 0x0A]
     @ ''- If more steps are needed, respond with an updated numbered plan (onl''
     @ ''y remaining steps).'' @ [CHR 0x0A, CHR 0x0A]
     @ ''Do not repeat completed steps. Be concise.''"

definition step_message :: "string \<Rightarrow> string \<Rightarrow> string" where
  "step_message fullPlan stepText =
     ''For the following plan:'' @ [CHR 0x0A]
     @ fullPlan
     @ [CHR 0x0A, CHR 0x0A] @ ''Execute this step: ''
     @ stepText"

text \<open>
  executeStep: at most 8 turns.  The result is the text of the step (an answer, or the
  raw reply when it holds neither answer nor action) or the error of the exhausted
  turns, with the usages of the calls made; \<open>n\<close> is the number of calls of the model
  made before the step.  A reply whose content is \<open>null\<close> makes \<open>parseReActAnswer\<close>
  throw.
\<close>

record step_result =
  sr_result :: "string option"
  sr_error :: "string option"
  sr_usages :: "usage list"

function executeStep_loop ::
  "llm \<Rightarrow> world \<Rightarrow> string option \<Rightarrow> nat \<Rightarrow> nat \<Rightarrow> message list \<Rightarrow> usage list \<Rightarrow> exn + step_result" where
  "executeStep_loop ask w apiKey n turn messages usages =
     (if turn < 8 then
        (case ask (n + turn) messages of
           Inl err \<Rightarrow> Inl err
         | Inr result \<Rightarrow>
             (case content result of
                None \<Rightarrow> Inl (null_read ''match'')
              | Some response \<Rightarrow>
                  let usages1 = usages @ [usage result];
                      ans = parseReActAnswer response
                  in if \<not> falsy ans
                     then Inr \<lparr>sr_result = ans, sr_error = None, sr_usages = usages1\<rparr>
                     else (case parseReActAction response of
                             Some act \<Rightarrow>
                               (case executeTool w (actionName act) (actionInput act) apiKey of
                                  Inl err \<Rightarrow> Inl err
                                | Inr observation \<Rightarrow>
                                    executeStep_loop ask w apiKey n (turn + 1)
                                      (messages @ [\<lparr>role = ''assistant'', msg_content = response\<rparr>,
                                                   \<lparr>role = ''user'', msg_content = ''Observation: '' @ observation\<rparr>])
                                      usages1)
                           | None \<Rightarrow> Inr \<lparr>sr_result = Some response, sr_error = None, sr_usages = usages1\<rparr>)))
      else Inr \<lparr>sr_result = None, sr_error = Some ''Step execution exceeded max turns.'',
                sr_usages = usages\<rparr>)"
  by pat_completeness auto
termination
  by (relation "measure (\<lambda>(ask, w, apiKey, n, turn, messages, usages). 8 - turn)") auto

declare executeStep_loop.simps [simp del]

definition executeStep ::
  "llm \<Rightarrow> world \<Rightarrow> string option \<Rightarrow> nat \<Rightarrow> string \<Rightarrow> string \<Rightarrow> exn + step_result" where
  "executeStep ask w apiKey n stepText fullPlan =
     executeStep_loop ask w apiKey n 0
       [\<lparr>role = ''system'', msg_content = getExecutorSystem\<rparr>,
        \<lparr>role = ''user'', msg_content = step_message fullPlan stepText\<rparr>] []"

text \<open>\<^verbatim>\<open>/DONE:\s*([\s\S]*)/\<close>\<close>

definition re_done :: regex where
  "re_done = seqs [lit ''DONE:'', Star True wsp, Group 1 (Star True any_char)]"

text \<open>
  The plan the loop starts from: the parsed steps, or the whole trimmed text of the
  planner as one step when there are none.
\<close>

definition initial_plan :: "string \<Rightarrow> string list" where
  "initial_plan text = (let plan = parsePlanSteps text in if length plan = 0 then [trim text] else plan)"

text \<open>
  The state of the execute and replan loop: the plan, the past steps, the number of
  replans, the final answer, the usages and the number of calls of the model.
\<close>

record pe_state =
  plan :: "string list"
  pastSteps :: "(string \<times> string) list"
  replanCount :: nat
  pe_finalAnswer :: "string option"
  pe_usages :: "usage list"
  pe_calls :: nat

text \<open>A result that counts: present, not empty, and not an error marker.\<close>

definition usable_result :: "string \<Rightarrow> bool" where
  "usable_result r = (r \<noteq> [] \<and> \<not> startsWith r ''[Error:'')"

function pe_loop ::
  "llm \<Rightarrow> world \<Rightarrow> string option \<Rightarrow> string \<Rightarrow> string \<Rightarrow> nat \<Rightarrow> pe_state \<Rightarrow> exn + pe_state" where
  "pe_loop ask w apiKey question ptext maxReplans st =
     (case plan st of
        [] \<Rightarrow> Inr st
      | currentStep # remaining \<Rightarrow>
          if \<not> replanCount st \<le> maxReplans then Inr st
          else
            (case executeStep ask w apiKey (pe_calls st) currentStep (numbered remaining) of
               Inl err \<Rightarrow> Inl err
             | Inr execResult \<Rightarrow>
                 let usages1 = pe_usages st @ sr_usages execResult;
                     calls1 = pe_calls st + length (sr_usages execResult);
                     stepOutput = (case sr_error execResult of
                                     Some e \<Rightarrow> ''[Error: '' @ e @ '']''
                                   | None \<Rightarrow> (case sr_result execResult of Some r \<Rightarrow> r | None \<Rightarrow> []));
                     past1 = pastSteps st @ [(currentStep, stepOutput)];
                     originalPlan = parsePlanSteps ptext;
                     replanPrompt = buildReplannerPrompt question
                                      (if length originalPlan > 0 then originalPlan else [trim ptext]) past1
                 in (case ask calls1 [\<lparr>role = ''system'', msg_content = REPLANNER_SYSTEM\<rparr>,
                                      \<lparr>role = ''user'', msg_content = replanPrompt\<rparr>] of
                       Inl err \<Rightarrow> Inl err
                     | Inr replanResult \<Rightarrow>
                         (case content replanResult of
                            None \<Rightarrow> Inl (null_read ''match'')
                          | Some replanResponse \<Rightarrow>
                              let usages2 = usages1 @ [usage replanResult];
                                  calls2 = calls1 + 1
                              in (case regex_exec re_done replanResponse of
                                    Some m \<Rightarrow>
                                      Inr \<lparr>plan = remaining, pastSteps = past1, replanCount = replanCount st,
                                           pe_finalAnswer = Some (trim (cap m 1)),
                                           pe_usages = usages2, pe_calls = calls2\<rparr>
                                  | None \<Rightarrow>
                                      let newSteps = parsePlanSteps replanResponse in
                                      if length newSteps > 0
                                      then pe_loop ask w apiKey question ptext maxReplans
                                             \<lparr>plan = newSteps, pastSteps = past1,
                                              replanCount = replanCount st + 1,
                                              pe_finalAnswer = pe_finalAnswer st,
                                              pe_usages = usages2, pe_calls = calls2\<rparr>
                                      else Inr \<lparr>plan = remaining, pastSteps = past1,
                                                replanCount = replanCount st,
                                                pe_finalAnswer = (if usable_result stepOutput
                                                                  then Some stepOutput else None),
                                                pe_usages = usages2, pe_calls = calls2\<rparr>)))))"
  by pat_completeness auto
termination
  by (relation "measure (\<lambda>(ask, w, apiKey, question, ptext, maxReplans, st).
                           maxReplans + 1 - replanCount st)") auto

declare pe_loop.simps [simp del]

text \<open>The fallback after the loop: the last usable result of the past steps.\<close>

definition last_usable :: "(string \<times> string) list \<Rightarrow> string option" where
  "last_usable past = (case filter usable_result (map snd (rev past)) of [] \<Rightarrow> None | r # _ \<Rightarrow> Some r)"

definition NO_FINAL_ANSWER :: string where
  "NO_FINAL_ANSWER = ''Plan-Execute did not produce a final answer within the allowed steps.''"

record PlanExecuteResult =
  pe_planText :: string
  pe_pastSteps :: "(string \<times> string) list"
  replans :: nat
  pe_answer :: "string option"
  pe_error :: "string option"
  pe_usage :: usage
  pe_llmCalls :: nat

definition pe_finish :: "string \<Rightarrow> pe_state \<Rightarrow> PlanExecuteResult" where
  "pe_finish ptext st =
     (let finalAnswer = (if falsy (pe_finalAnswer st)
                         then (case last_usable (pastSteps st) of
                                 Some r \<Rightarrow> Some r | None \<Rightarrow> pe_finalAnswer st)
                         else pe_finalAnswer st)
      in \<lparr>pe_planText = ptext, pe_pastSteps = pastSteps st, replans = replanCount st,
          pe_answer = finalAnswer,
          pe_error = (if falsy finalAnswer then Some NO_FINAL_ANSWER else None),
          pe_usage = sumUsage (pe_usages st), pe_llmCalls = pe_calls st\<rparr>)"

text \<open>
  runPlanExecute, with \<open>maxReplans\<close> a non-negative integer.  A planner reply without
  content makes \<open>parsePlanSteps\<close> throw (\<open>text.split\<close> on \<open>null\<close>), a replanner reply
  without content makes \<open>replanResponse.match\<close> throw.
\<close>

definition runPlanExecute ::
  "llm \<Rightarrow> world \<Rightarrow> string option \<Rightarrow> string \<Rightarrow> nat \<Rightarrow> exn + PlanExecuteResult" where
  "runPlanExecute ask w apiKey question maxReplans =
     (case ask 0 [\<lparr>role = ''system'', msg_content = PLANNER_SYSTEM\<rparr>,
                  \<lparr>role = ''user'', msg_content = question\<rparr>] of
        Inl err \<Rightarrow> Inl err
      | Inr planResult \<Rightarrow>
          (case content planResult of
             None \<Rightarrow> Inl (null_read ''split'')
           | Some ptext \<Rightarrow>
               (case pe_loop ask w apiKey question ptext maxReplans
                       \<lparr>plan = initial_plan ptext, pastSteps = [], replanCount = 0,
                        pe_finalAnswer = None, pe_usages = [usage planResult], pe_calls = 1\<rparr> of
                  Inl err \<Rightarrow> Inl err
                | Inr st \<Rightarrow> Inr (pe_finish ptext st))))"



text \<open>The numbers of the groups of a regular expression.\<close>

primrec groups :: "regex \<Rightarrow> nat set" where
  "groups (Chr P) = {}"
| "groups Eps = {}"
| "groups (Seq r1 r2) = groups r1 \<union> groups r2"
| "groups (Alt r1 r2) = groups r1 \<union> groups r2"
| "groups (Star greedy r) = groups r"
| "groups (Group n r) = insert n (groups r)"
| "groups (Bol multiline) = {}"
| "groups (Eol multiline) = {}"
| "groups WordB = {}"
| "groups (Look r) = groups r"


text \<open>
  The key under which step 2 of smartMajorityVote files an answer
  (\<open>normalized || original\<close>), and the \<open>originals\<close> tally that a group holding
  the given original forms ends with.
\<close>

definition entry_key :: "string \<Rightarrow> string" where
  "entry_key a = (if basicNormalize a \<noteq> [] then basicNormalize a else toLowerCase (trim a))"

definition tally :: "string list \<Rightarrow> nat jsobj" where
  "tally origs = foldl (\<lambda>os orig. bump os orig 1) [] origs"


text \<open>
  Whole-word containment as the specification words it: \<open>s\<close> occurs in \<open>l\<close>, starting
  at the beginning of \<open>l\<close> or at a word boundary and ending at a word boundary or at
  the end of \<open>l\<close>.
\<close>

definition occurs_as_word :: "string \<Rightarrow> string \<Rightarrow> bool" where
  "occurs_as_word s l =
     (\<exists>pre post. l = pre @ s @ post
        \<and> (pre = [] \<or> at_word_boundary (rev pre, s @ post))
        \<and> (post = [] \<or> at_word_boundary (rev s @ rev pre, post)))"


section \<open>Evaluation rules for the matcher\<close>

text \<open>
  The equations of the matcher at a position whose two texts are given, one regular
  expression constant unfolded at a time, so that a match on a concrete text is
  computed by rewriting.
\<close>

lemma rmatch_Chr_Nil: "rmatch (Chr P) (b, []) c k = None"
  by simp

lemma rmatch_Chr_Cons: "rmatch (Chr P) (b, x # xs) c k = (if P x then k (x # b, xs) c else None)"
  by simp

lemma rmatch_lit_Nil: "rmatch (lit []) p c k = k p c"
  by (simp add: lit_def)

lemma rmatch_lit_Cons_Nil: "rmatch (lit (x # xs)) (b, []) c k = None"
  by (simp add: lit_def)

lemma rmatch_lit_Cons_Cons:
  "rmatch (lit (x # xs)) (b, y # ys) c k = (if y = x then rmatch (lit xs) (y # b, ys) c k else None)"
  by (simp add: lit_def)

lemma rmatch_liti_Nil: "rmatch (liti []) p c k = k p c"
  by (simp add: liti_def)

lemma rmatch_liti_Cons_Nil: "rmatch (liti (x # xs)) (b, []) c k = None"
  by (simp add: liti_def)

lemma rmatch_liti_Cons_Cons:
  "rmatch (liti (x # xs)) (b, y # ys) c k =
     (if upper_ascii y = upper_ascii x then rmatch (liti xs) (y # b, ys) c k else None)"
  by (simp add: liti_def)

lemma rmatch_seqs_Cons:
  "rmatch (seqs (r # rs)) p c k = rmatch r p c (\<lambda>p' c'. rmatch (seqs rs) p' c' k)"
  by (simp add: seqs_def)

lemma rmatch_seqs_Nil: "rmatch (seqs []) p c k = k p c"
  by (simp add: seqs_def)

lemma rmatch_Group:
  "rmatch (Group n r) (b, a) c k =
     rmatch r (b, a) c (\<lambda>p' c'. k p' ((n, take (length a - length (snd p')) a) # c'))"
  by simp

lemma rmatch_Bol_Nil: "rmatch (Bol m) ([], a) c k = k ([], a) c"
  by simp

lemma rmatch_Bol_Cons:
  "rmatch (Bol m) (x # b, a) c k = (if m \<and> line_terminator x then k (x # b, a) c else None)"
  by simp

lemma rmatch_Eol_Nil: "rmatch (Eol m) (b, []) c k = k (b, []) c"
  by simp

lemma rmatch_Eol_Cons:
  "rmatch (Eol m) (b, y # a) c k = (if m \<and> line_terminator y then k (b, y # a) c else None)"
  by simp

lemma rmatch_WordB:
  "rmatch WordB (b, a) c k =
     (if (case b of [] \<Rightarrow> False | x # _ \<Rightarrow> is_word x) \<noteq> (case a of [] \<Rightarrow> False | y # _ \<Rightarrow> is_word y)
      then k (b, a) c else None)"
  by (simp add: at_word_boundary_def)

lemma rmatch_Star:
  "rmatch (Star g r) (b, a) c k = star_iter g (rmatch r) (Suc (length a)) (b, a) c k"
  by simp

lemma star_iter_Suc:
  "star_iter greedy f (Suc n) (b, a) c k =
     (if greedy then
        (case f (b, a) c (\<lambda>p' c'. if length (snd p') < length a
                                  then star_iter greedy f n p' c' k else None) of
           Some r \<Rightarrow> Some r
         | None \<Rightarrow> k (b, a) c)
      else
        (case k (b, a) c of
           Some r \<Rightarrow> Some r
         | None \<Rightarrow> f (b, a) c (\<lambda>p' c'. if length (snd p') < length a
                                        then star_iter greedy f n p' c' k else None)))"
  by (simp only: star_iter.simps snd_conv)

lemma upper_ascii_lower:
  "upper_ascii CHR ''a'' = CHR ''A''" "upper_ascii CHR ''b'' = CHR ''B''" "upper_ascii CHR ''c'' = CHR ''C''"
  "upper_ascii CHR ''d'' = CHR ''D''" "upper_ascii CHR ''e'' = CHR ''E''" "upper_ascii CHR ''f'' = CHR ''F''"
  "upper_ascii CHR ''g'' = CHR ''G''" "upper_ascii CHR ''h'' = CHR ''H''" "upper_ascii CHR ''i'' = CHR ''I''"
  "upper_ascii CHR ''j'' = CHR ''J''" "upper_ascii CHR ''k'' = CHR ''K''" "upper_ascii CHR ''l'' = CHR ''L''"
  "upper_ascii CHR ''m'' = CHR ''M''" "upper_ascii CHR ''n'' = CHR ''N''" "upper_ascii CHR ''o'' = CHR ''O''"
  "upper_ascii CHR ''p'' = CHR ''P''" "upper_ascii CHR ''q'' = CHR ''Q''" "upper_ascii CHR ''r'' = CHR ''R''"
  "upper_ascii CHR ''s'' = CHR ''S''" "upper_ascii CHR ''t'' = CHR ''T''" "upper_ascii CHR ''u'' = CHR ''U''"
  "upper_ascii CHR ''v'' = CHR ''V''" "upper_ascii CHR ''w'' = CHR ''W''" "upper_ascii CHR ''x'' = CHR ''X''"
  "upper_ascii CHR ''y'' = CHR ''Y''" "upper_ascii CHR ''z'' = CHR ''Z''"
  by (simp_all add: upper_ascii_def)

lemma upper_ascii_other: "c \<notin> set ''abcdefghijklmnopqrstuvwxyz'' \<Longrightarrow> upper_ascii c = c"
  by (simp add: upper_ascii_def)

lemma exec_from_eval:
  "exec_from r b a =
     (case rmatch r (b, a) [] (\<lambda>p c. Some (p, c)) of
        Some (p', c') \<Rightarrow>
          Some \<lparr>m_before = rev b, m_text = take (length a - length (snd p')) a,
                m_after = snd p', m_caps = c'\<rparr>
      | None \<Rightarrow> (case a of [] \<Rightarrow> None | x # xs \<Rightarrow> exec_from r (x # b) xs))"
  by (simp add: exec_from.simps)

lemma unfold_re_the_answer_is:
  "rmatch re_the_answer_is p c k =
     rmatch (seqs [one_of ''Tt'', lit ''he answer is'', Plus True wsp, Group 1 (Plus False dot),
                   Opt (lit ''.''), Star True wsp, Eol True]) p c k"
  by (simp only: re_the_answer_is_def)

lemma unfold_re_hashes:
  "rmatch re_hashes p c k = rmatch (seqs [lit ''####'', Star True wsp, Group 1 (Plus True dot)]) p c k"
  by (simp only: re_hashes_def)

lemma unfold_re_conclusion:
  "rmatch re_conclusion p c k =
     rmatch (seqs [alts (liti ''therefore'') [liti ''thus'', liti ''so'', liti ''hence''],
                   Opt (lit '',''), Plus True wsp,
                   Opt (Seq (liti ''the answer is'') (Plus True wsp)),
                   Group 1 (Plus False dot), Opt (lit ''.''), Star True wsp, Eol True]) p c k"
  by (simp only: re_conclusion_def)

lemma unfold_re_answer_label:
  "rmatch re_answer_label p c k =
     rmatch (seqs [Opt (Seq (liti ''final'') (Plus True wsp)), liti ''answer:'', Star True wsp,
                   Group 1 (Plus False dot), Opt (lit ''.''), Star True wsp, Eol True]) p c k"
  by (simp only: re_answer_label_def)

lemma unfold_re_embedded_answer:
  "rmatch re_embedded_answer p c k =
     rmatch (seqs [Opt (lit ''.''), Star True wsp, one_of ''Tt'', lit ''he answer is'', Plus True wsp,
                   Star True dot, Eol False]) p c k"
  by (simp only: re_embedded_answer_def)

lemma unfold_re_trailing_dots:
  "rmatch re_trailing_dots p c k = rmatch (seqs [Plus True (lit ''.''), Eol False]) p c k"
  by (simp only: re_trailing_dots_def)

lemmas rx_eval =
  regex_exec_def regex_test_def exec_from_eval upper_ascii_lower upper_ascii_other
  rmatch_Chr_Nil rmatch_Chr_Cons rmatch_lit_Nil rmatch_lit_Cons_Nil rmatch_lit_Cons_Cons
  rmatch_liti_Nil rmatch_liti_Cons_Nil rmatch_liti_Cons_Cons rmatch_seqs_Cons rmatch_seqs_Nil
  rmatch_Group rmatch_Bol_Nil rmatch_Bol_Cons rmatch_Eol_Nil rmatch_Eol_Cons rmatch_WordB
  rmatch_Star star_iter_Suc
  alts_def Plus_def Opt_def dot_def wsp_def digit_def word_char_def one_of_def any_char_def
  cap_def js_whitespace_def line_terminator_def is_digit_def is_word_def trim_def
  replace_first_def falsy_def pattern_capture_def

lemmas rx_raw = rmatch.simps(1,5,6,7,8,9) star_iter.simps(2)

lemmas extract_eval =
  extractAnswer_def clean_answer_def unfold_re_the_answer_is unfold_re_hashes unfold_re_conclusion
  unfold_re_answer_label unfold_re_embedded_answer unfold_re_trailing_dots


section \<open>Properties of callLLM\<close>

lemma retryable_not_ok: "st \<in> RETRYABLE_STATUSES \<Longrightarrow> \<not> response_ok st"
  by (auto simp: RETRYABLE_STATUSES_def response_ok_def)

lemma transient_retried: "transient r \<Longrightarrow> retried r"
  by (auto simp: transient_def retried_def split: fetch_result.splits)

lemma transient_attempt_error:
  "transient r \<Longrightarrow> attempt_error r a = retry_error (status_of r) a"
  by (auto simp: transient_def attempt_error_def status_of_def split: fetch_result.splits)

lemma attempts_trace_Suc: "attempts_trace (Suc n) = attempts_trace n @ attempt_events n"
  by (simp add: attempts_trace_def)

lemma attempts_trace_4:
  "attempts_trace 4 = [Request 0, Wait 1000, Request 1, Wait 2000, Request 2, Wait 4000, Request 3]"
  by (simp add: attempts_trace_def attempt_events_def upt_rec numeral_eq_Suc)

lemma loop_retry_step:
  assumes "attempt < MAX_RETRIES" "signal_clear sg attempt" "retried (fetch attempt)"
  shows "callLLM_loop sg fetch attempt le tr =
         callLLM_loop sg fetch (Suc attempt) (Some (attempt_error (fetch attempt) attempt))
           (tr @ attempt_events attempt)"
  using assms
  by (subst callLLM_loop.simps)
     (auto simp: retried_def attempt_error_def attempt_events_def BASE_DELAY_MS_def
           retryable_not_ok signal_clear_def split: fetch_result.splits)

definition last_error :: "(nat \<Rightarrow> fetch_result) \<Rightarrow> nat \<Rightarrow> exn option" where
  "last_error fetch a = (if a = 0 then None else Some (attempt_error (fetch (a - 1)) (a - 1)))"

lemma loop_prefix:
  "a \<le> MAX_RETRIES \<Longrightarrow> \<forall>i<a. retried (fetch i) \<and> signal_clear sg i \<Longrightarrow>
     callLLM sg fetch = callLLM_loop sg fetch a (last_error fetch a) (attempts_trace a)"
proof (induction a)
  case 0
  then show ?case by (simp add: callLLM_def last_error_def attempts_trace_def)
next
  case (Suc a)
  then have "callLLM sg fetch = callLLM_loop sg fetch a (last_error fetch a) (attempts_trace a)"
    by simp
  also have "\<dots> = callLLM_loop sg fetch (Suc a) (Some (attempt_error (fetch a) a))
           (attempts_trace a @ attempt_events a)"
    using Suc.prems by (intro loop_retry_step) auto
  finally show ?case by (simp add: last_error_def attempts_trace_Suc)
qed

lemma loop_final_step:
  assumes "a \<le> MAX_RETRIES" "signal_clear sg a" "fetch a = Response st body"
    "st \<notin> RETRYABLE_STATUSES"
  shows "callLLM_loop sg fetch a le tr =
         (if response_ok st then completion_of body else Inl (api_error st body), tr @ attempt_events a)"
  using assms
  by (subst callLLM_loop.simps)
     (auto simp: attempt_events_def BASE_DELAY_MS_def signal_clear_def)

lemma loop_past_end:
  "callLLM_loop sg fetch (Suc MAX_RETRIES) le tr =
     (Inl (case le of None \<Rightarrow> ThrownUndefined | Some e \<Rightarrow> e), tr)"
  by (subst callLLM_loop.simps) simp

lemma loop_exhausted:
  assumes "signal_clear sg MAX_RETRIES" "retried (fetch MAX_RETRIES)"
  shows "callLLM_loop sg fetch MAX_RETRIES le tr =
         (Inl (attempt_error (fetch MAX_RETRIES) MAX_RETRIES), tr @ attempt_events MAX_RETRIES)"
proof (cases "fetch MAX_RETRIES")
  case (FetchThrows e)
  then show ?thesis
    using assms
    by (subst callLLM_loop.simps)
       (simp add: attempt_events_def BASE_DELAY_MS_def retried_def signal_clear_def
          attempt_error_def MAX_RETRIES_def)
next
  case (Response st body)
  have pos: "0 < MAX_RETRIES" by (simp add: MAX_RETRIES_def)
  have "callLLM_loop sg fetch MAX_RETRIES le tr =
        callLLM_loop sg fetch (Suc MAX_RETRIES) (Some (retry_error st MAX_RETRIES))
          (tr @ attempt_events MAX_RETRIES)"
    using assms Response pos
    by (subst callLLM_loop.simps)
       (simp add: attempt_events_def BASE_DELAY_MS_def retryable_not_ok retried_def signal_clear_def)
  then show ?thesis by (simp add: loop_past_end Response attempt_error_def)
qed

lemma loop_aborted_before:
  assumes "a \<le> MAX_RETRIES" "aborted sg (BeforeAttempt a)"
  shows "callLLM_loop sg fetch a le tr = (Inl AbortError, tr)"
  using assms by (subst callLLM_loop.simps) simp

lemma loop_aborted_in_backoff:
  assumes "a \<le> MAX_RETRIES" "0 < a" "\<not> aborted sg (BeforeAttempt a)" "aborted sg (AfterBackoff a)"
  shows "callLLM_loop sg fetch a le tr = (Inl AbortError, tr @ [Wait (1000 * 2 ^ (a - 1))])"
  using assms by (subst callLLM_loop.simps) (simp add: BASE_DELAY_MS_def)

lemma loop_fetch_aborted:
  assumes "a \<le> MAX_RETRIES" "signal_clear sg a" "fetch a = FetchThrows (Exn ''AbortError'' m)"
  shows "callLLM_loop sg fetch a le tr = (Inl (Exn ''AbortError'' m), tr @ attempt_events a)"
  using assms
  by (subst callLLM_loop.simps)
     (auto simp: attempt_events_def BASE_DELAY_MS_def signal_clear_def)

text \<open>
  C1.  When the signal is never aborted: (1) four transient statuses in a row make the
  call send exactly four requests, wait 1000, 2000 and 4000 ms before the second, third
  and fourth, and throw the error built from the fourth response; (2) a non-retryable
  failure status at attempt \<open>a\<close>, after transient ones, makes the call throw at once,
  with no request after attempt \<open>a\<close> and the wait before retry \<open>k\<close> equal to
  \<open>1000 * 2 ^ (k - 1)\<close>; (3) an ok response at attempt \<open>a\<close> ends the retries the
  same way with the completion.
\<close>

theorem callLLM_retry_backoff:
  assumes "\<forall>cp. \<not> aborted sg cp"
  shows "((\<forall>a\<le>MAX_RETRIES. transient (fetch a)) \<longrightarrow>
            callLLM sg fetch =
              (Inl (retry_error (status_of (fetch 3)) 3),
               [Request 0, Wait 1000, Request 1, Wait 2000, Request 2, Wait 4000, Request 3]))
       \<and> (\<forall>a st body. a \<le> MAX_RETRIES \<and> (\<forall>i<a. transient (fetch i)) \<and>
              fetch a = Response st body \<and> \<not> response_ok st \<and> st \<notin> RETRYABLE_STATUSES \<longrightarrow>
            callLLM sg fetch = (Inl (api_error st body), attempts_trace (Suc a)))
       \<and> (\<forall>a st body. a \<le> MAX_RETRIES \<and> (\<forall>i<a. transient (fetch i)) \<and>
              fetch a = Response st body \<and> response_ok st \<longrightarrow>
            callLLM sg fetch = (completion_of body, attempts_trace (Suc a)))"
proof (intro conjI allI impI)
  have clear: "signal_clear sg k" for k
    using assms by (simp add: signal_clear_def)
  {
    assume all: "\<forall>a\<le>MAX_RETRIES. transient (fetch a)"
    then have "callLLM sg fetch =
        callLLM_loop sg fetch MAX_RETRIES (last_error fetch MAX_RETRIES) (attempts_trace MAX_RETRIES)"
      using clear by (intro loop_prefix) (auto intro: transient_retried)
    also have "\<dots> = (Inl (attempt_error (fetch MAX_RETRIES) MAX_RETRIES),
                      attempts_trace MAX_RETRIES @ attempt_events MAX_RETRIES)"
      using all clear by (intro loop_exhausted) (auto intro: transient_retried)
    also have "attempt_error (fetch MAX_RETRIES) MAX_RETRIES = retry_error (status_of (fetch 3)) 3"
      using all by (simp add: transient_attempt_error) (simp add: MAX_RETRIES_def)
    also have "attempts_trace MAX_RETRIES @ attempt_events MAX_RETRIES = attempts_trace 4"
      using attempts_trace_Suc [of MAX_RETRIES] by (simp add: MAX_RETRIES_def)
    finally show "callLLM sg fetch =
              (Inl (retry_error (status_of (fetch 3)) 3),
               [Request 0, Wait 1000, Request 1, Wait 2000, Request 2, Wait 4000, Request 3])"
      by (simp add: attempts_trace_4)
  }
  {
    fix a st body
    assume h: "a \<le> MAX_RETRIES \<and> (\<forall>i<a. transient (fetch i)) \<and>
              fetch a = Response st body \<and> \<not> response_ok st \<and> st \<notin> RETRYABLE_STATUSES"
    then have "callLLM sg fetch = callLLM_loop sg fetch a (last_error fetch a) (attempts_trace a)"
      using clear by (intro loop_prefix) (auto intro: transient_retried)
    also have "\<dots> = (Inl (api_error st body), attempts_trace a @ attempt_events a)"
      using h clear loop_final_step [of a sg fetch st body] by simp
    finally show "callLLM sg fetch = (Inl (api_error st body), attempts_trace (Suc a))"
      by (simp add: attempts_trace_Suc)
  }
  {
    fix a st body
    assume h: "a \<le> MAX_RETRIES \<and> (\<forall>i<a. transient (fetch i)) \<and>
              fetch a = Response st body \<and> response_ok st"
    then have nr: "st \<notin> RETRYABLE_STATUSES" using retryable_not_ok by blast
    from h have "callLLM sg fetch = callLLM_loop sg fetch a (last_error fetch a) (attempts_trace a)"
      using clear by (intro loop_prefix) (auto intro: transient_retried)
    also have "\<dots> = (completion_of body, attempts_trace a @ attempt_events a)"
      using h nr clear loop_final_step [of a sg fetch st body] by simp
    finally show "callLLM sg fetch = (completion_of body, attempts_trace (Suc a))"
      by (simp add: attempts_trace_Suc)
  }
qed

theorem callLLM_retry_backoff_witness:
  "(\<forall>cp. \<not> aborted None cp)
   \<and> transient (Response 503 (Inl (Exn ''SyntaxError'' ''Unexpected token'')))
   \<and> callLLM None (\<lambda>_. Response 503 (Inl (Exn ''SyntaxError'' ''Unexpected token''))) =
       (Inl (Error ''LLM API error: 503 (attempt 4/4)''),
        [Request 0, Wait 1000, Request 1, Wait 2000, Request 2, Wait 4000, Request 3])
   \<and> callLLM None (\<lambda>i. if i < 2 then Response 429 (Inl (Exn ''SyntaxError'' ''Unexpected token''))
                         else Response 400 (Inr \<lparr>choice_message = None, finish_reason = [],
                                usage_json = None, error_message = Some ''bad request''\<rparr>)) =
       (Inl (Error ''bad request''), [Request 0, Wait 1000, Request 1, Wait 2000, Request 2])
   \<and> callLLM None (\<lambda>i. if i < 1 then Response 500 (Inl (Exn ''SyntaxError'' ''Unexpected token''))
                         else Response 200 (Inr \<lparr>choice_message = Some (Some ''hello''), finish_reason = ''stop'',
                                usage_json = None, error_message = None\<rparr>)) =
       (Inr \<lparr>content = Some ''hello'', finishReason = ''stop'', usage = zero_usage\<rparr>,
        [Request 0, Wait 1000, Request 1])"
proof -
  have na: "\<forall>cp. \<not> aborted None cp" by (simp add: aborted_def)
  let ?bad = "Inl (Exn ''SyntaxError'' ''Unexpected token'') :: exn + chat_json"
  let ?f1 = "\<lambda>_::nat. Response 503 ?bad"
  let ?b2 = "Inr \<lparr>choice_message = None, finish_reason = [],
                  usage_json = None, error_message = Some ''bad request''\<rparr> :: exn + chat_json"
  let ?f2 = "\<lambda>i::nat. if i < 2 then Response 429 ?bad else Response 400 ?b2"
  let ?b3 = "Inr \<lparr>choice_message = Some (Some ''hello''), finish_reason = ''stop'',
                  usage_json = None, error_message = None\<rparr> :: exn + chat_json"
  let ?f3 = "\<lambda>i::nat. if i < 1 then Response 500 ?bad else Response 200 ?b3"
  have tr: "transient (Response 503 ?bad)" "transient (Response 429 ?bad)" "transient (Response 500 ?bad)"
    by (simp_all add: transient_def RETRYABLE_STATUSES_def)
  have e1: "retry_error 503 3 = Error ''LLM API error: 503 (attempt 4/4)''"
    by (simp add: retry_error_def string_of_nat.simps digit_char_def MAX_RETRIES_def)
  have r1: "callLLM None ?f1 =
       (Inl (Error ''LLM API error: 503 (attempt 4/4)''),
        [Request 0, Wait 1000, Request 1, Wait 2000, Request 2, Wait 4000, Request 3])"
    using callLLM_retry_backoff [OF na, of ?f1] tr by (simp add: status_of_def e1)
  have h2: "(2::nat) \<le> MAX_RETRIES \<and> (\<forall>i<2. transient (?f2 i)) \<and> ?f2 2 = Response 400 ?b2
            \<and> \<not> response_ok 400 \<and> 400 \<notin> RETRYABLE_STATUSES"
    using tr by (simp add: MAX_RETRIES_def response_ok_def RETRYABLE_STATUSES_def)
  have "callLLM None ?f2 = (Inl (api_error 400 ?b2), attempts_trace (Suc 2))"
    by (rule callLLM_retry_backoff [OF na, of ?f2, THEN conjunct2, THEN conjunct1,
          rule_format, of 2 400 ?b2, OF h2])
  then have r2: "callLLM None ?f2 =
       (Inl (Error ''bad request''), [Request 0, Wait 1000, Request 1, Wait 2000, Request 2])"
    by (simp add: api_error_def attempts_trace_def attempt_events_def upt_rec numeral_eq_Suc)
  have h3: "(1::nat) \<le> MAX_RETRIES \<and> (\<forall>i<1. transient (?f3 i)) \<and> ?f3 1 = Response 200 ?b3
            \<and> response_ok 200"
    using tr by (simp add: MAX_RETRIES_def response_ok_def)
  have "callLLM None ?f3 = (completion_of ?b3, attempts_trace (Suc 1))"
    by (rule callLLM_retry_backoff [OF na, of ?f3, THEN conjunct2, THEN conjunct2,
          rule_format, of 1 200 ?b3, OF h3])
  then have r3: "callLLM None ?f3 =
       (Inr \<lparr>content = Some ''hello'', finishReason = ''stop'', usage = zero_usage\<rparr>,
        [Request 0, Wait 1000, Request 1])"
    by (simp add: completion_of_def attempts_trace_def attempt_events_def upt_rec numeral_eq_Suc)
  show ?thesis using na tr r1 r2 r3 by simp
qed

text \<open>
  C8.  The signal is read before each attempt and after each backoff wait.  When it is
  first found aborted before attempt \<open>a\<close>, or after the wait that precedes attempt
  \<open>a\<close>, the call throws the AbortError and the requests sent are exactly those of the
  attempts before \<open>a\<close>: attempt \<open>a\<close> is never sent.  An AbortError thrown by the fetch
  itself is rethrown at once and not retried.
\<close>

theorem callLLM_cancellation:
  assumes "a \<le> MAX_RETRIES" and "\<forall>i<a. retried (fetch i) \<and> signal_clear sg i"
  shows "(aborted sg (BeforeAttempt a) \<longrightarrow>
            callLLM sg fetch = (Inl AbortError, attempts_trace a))
       \<and> (0 < a \<and> \<not> aborted sg (BeforeAttempt a) \<and> aborted sg (AfterBackoff a) \<longrightarrow>
            callLLM sg fetch = (Inl AbortError, attempts_trace a @ [Wait (1000 * 2 ^ (a - 1))]))
       \<and> (signal_clear sg a \<and> fetch a = FetchThrows (Exn ''AbortError'' m) \<longrightarrow>
            callLLM sg fetch = (Inl (Exn ''AbortError'' m), attempts_trace (Suc a)))
       \<and> Request a \<notin> set (attempts_trace a)"
proof -
  have pre: "callLLM sg fetch = callLLM_loop sg fetch a (last_error fetch a) (attempts_trace a)"
    using assms by (rule loop_prefix)
  have "Request a \<notin> set (attempts_trace a)"
    by (auto simp: attempts_trace_def attempt_events_def)
  then show ?thesis
    using assms(1)
    by (simp add: pre loop_aborted_before loop_aborted_in_backoff loop_fetch_aborted attempts_trace_Suc)
qed

theorem callLLM_cancellation_witness:
  "(1::nat) \<le> MAX_RETRIES
   \<and> retried (Response 503 (Inl ThrownUndefined))
   \<and> signal_clear (Some (\<lambda>cp. cp = AfterBackoff 1)) 0
   \<and> aborted (Some (\<lambda>cp. cp = AfterBackoff 1)) (AfterBackoff 1)
   \<and> callLLM (Some (\<lambda>cp. cp = AfterBackoff 1)) (\<lambda>_. Response 503 (Inl ThrownUndefined)) =
       (Inl (Exn ''AbortError'' ''The operation was aborted.''), [Request 0, Wait 1000])
   \<and> aborted (Some (\<lambda>cp. cp = BeforeAttempt 1)) (BeforeAttempt 1)
   \<and> callLLM (Some (\<lambda>cp. cp = BeforeAttempt 1)) (\<lambda>_. Response 503 (Inl ThrownUndefined)) =
       (Inl (Exn ''AbortError'' ''The operation was aborted.''), [Request 0])
   \<and> callLLM None (\<lambda>i. if i < 1 then Response 503 (Inl ThrownUndefined)
                         else FetchThrows (Exn ''AbortError'' ''signal is aborted'')) =
       (Inl (Exn ''AbortError'' ''signal is aborted''), [Request 0, Wait 1000, Request 1])"
proof -
  let ?f = "\<lambda>_::nat. Response 503 (Inl ThrownUndefined :: exn + chat_json)"
  let ?g = "\<lambda>i::nat. if i < 1 then Response 503 (Inl ThrownUndefined :: exn + chat_json)
                         else FetchThrows (Exn ''AbortError'' ''signal is aborted'')"
  let ?s1 = "Some (\<lambda>cp. cp = AfterBackoff 1)"
  let ?s2 = "Some (\<lambda>cp. cp = BeforeAttempt 1)"
  have le: "(1::nat) \<le> MAX_RETRIES" by (simp add: MAX_RETRIES_def)
  have rt: "retried (Response 503 (Inl ThrownUndefined))"
    by (simp add: retried_def RETRYABLE_STATUSES_def)
  have c1: "\<forall>i<1. retried (?f i) \<and> signal_clear ?s1 i"
    using rt by (simp add: signal_clear_def aborted_def)
  have c2: "\<forall>i<1. retried (?f i) \<and> signal_clear ?s2 i"
    using rt by (simp add: signal_clear_def aborted_def)
  have c3: "\<forall>i<1. retried (?g i) \<and> signal_clear None i"
    using rt by (simp add: signal_clear_def aborted_def)
  have tr1: "attempts_trace (Suc 0) = [Request 0]"
    "attempts_trace (Suc (Suc 0)) = [Request 0, Wait 1000, Request (Suc 0)]"
    by (simp_all add: attempts_trace_def attempt_events_def)
  have r1: "callLLM ?s1 ?f = (Inl AbortError, [Request 0, Wait 1000])"
    using callLLM_cancellation [OF le c1] by (simp add: aborted_def tr1)
  have r2: "callLLM ?s2 ?f = (Inl AbortError, [Request 0])"
    using callLLM_cancellation [OF le c2] by (simp add: aborted_def tr1)
  have r3: "callLLM None ?g = (Inl (Exn ''AbortError'' ''signal is aborted''), [Request 0, Wait 1000, Request 1])"
    using callLLM_cancellation [OF le c3, of "''signal is aborted''"]
    by (simp add: aborted_def signal_clear_def tr1)
  show ?thesis
    using le rt r1 r2 r3 by (simp add: aborted_def AbortError_def signal_clear_def)
qed


section \<open>Properties of extractAnswer\<close>

lemma extractAnswer_first:
  assumes "text \<noteq> []"
    and "map_option (\<lambda>x. trim (filter (\<lambda>c. c \<noteq> CHR '','') x)) (pattern_capture re_the_answer_is text) = Some a"
    and "a \<noteq> []"
  shows "extractAnswer text = clean_answer a"
  using assms by (auto simp: extractAnswer_def falsy_def split: option.splits)

lemma extractAnswer_later:
  assumes "text \<noteq> []"
    and "falsy (map_option (\<lambda>x. trim (filter (\<lambda>c. c \<noteq> CHR '','') x)) (pattern_capture re_the_answer_is text))"
  shows "extractAnswer text =
     (let a2 = map_option trim (pattern_capture re_hashes text);
          a3 = map_option trim (pattern_capture re_conclusion text);
          a4 = map_option trim (pattern_capture re_answer_label text);
          r = (if \<not> falsy a2 then a2 else if \<not> falsy a3 then a3 else a4)
      in case r of None \<Rightarrow> None | Some a \<Rightarrow> if a = [] then None else clean_answer a)"
  using assms by (auto simp: extractAnswer_def falsy_def Let_def split: option.splits)

text \<open>
  C6 (amended).  extractAnswer tries the pattern "[Tt]he answer is X" first: the
  initial letter in either case, the rest in lower case, anchored at the end of a line.
  When that pattern gives a non-empty answer the other patterns are not consulted and
  the commas of the captured text are removed; the "#### X", conclusion and
  "(final) answer:" patterns follow in this order and keep their commas; trailing
  periods are cut off at the end.  The three examples of the specification hold, and
  the first pattern does not match upper-case text.
\<close>

theorem extractAnswer_priority:
  assumes "text \<noteq> []"
  shows "(\<forall>a. map_option (\<lambda>x. trim (filter (\<lambda>c. c \<noteq> CHR '','') x))
               (pattern_capture re_the_answer_is text) = Some a \<and> a \<noteq> []
             \<longrightarrow> extractAnswer text = clean_answer a)
       \<and> (\<forall>a. falsy (map_option (\<lambda>x. trim (filter (\<lambda>c. c \<noteq> CHR '','') x))
                      (pattern_capture re_the_answer_is text))
              \<and> map_option trim (pattern_capture re_hashes text) = Some a \<and> a \<noteq> []
             \<longrightarrow> extractAnswer text = clean_answer a)
       \<and> (\<forall>a. falsy (map_option (\<lambda>x. trim (filter (\<lambda>c. c \<noteq> CHR '','') x))
                      (pattern_capture re_the_answer_is text))
              \<and> falsy (map_option trim (pattern_capture re_hashes text))
              \<and> map_option trim (pattern_capture re_conclusion text) = Some a \<and> a \<noteq> []
             \<longrightarrow> extractAnswer text = clean_answer a)
       \<and> (\<forall>a. falsy (map_option (\<lambda>x. trim (filter (\<lambda>c. c \<noteq> CHR '','') x))
                      (pattern_capture re_the_answer_is text))
              \<and> falsy (map_option trim (pattern_capture re_hashes text))
              \<and> falsy (map_option trim (pattern_capture re_conclusion text))
              \<and> map_option trim (pattern_capture re_answer_label text) = Some a \<and> a \<noteq> []
             \<longrightarrow> extractAnswer text = clean_answer a)
       \<and> extractAnswer ''The answer is 42.'' = Some ''42''
       \<and> extractAnswer ''#### 17'' = Some ''17''
       \<and> extractAnswer ''no conclusion here'' = None
       \<and> extractAnswer ''the answer is 1,234.'' = Some ''1234''
       \<and> clean_answer ''17...'' = Some ''17''"
proof (intro conjI allI impI)
  show "extractAnswer ''The answer is 42.'' = Some ''42''"
    by (simp add: extract_eval rx_eval del: rx_raw)
  show "extractAnswer ''#### 17'' = Some ''17''"
    by (simp add: extract_eval rx_eval del: rx_raw)
  show "extractAnswer ''no conclusion here'' = None"
    by (simp add: extract_eval rx_eval del: rx_raw)
  show "extractAnswer ''the answer is 1,234.'' = Some ''1234''"
    by (simp add: extract_eval rx_eval del: rx_raw)
  show "clean_answer ''17...'' = Some ''17''"
    by (simp add: extract_eval rx_eval del: rx_raw)
qed (use assms in \<open>auto simp: extractAnswer_first extractAnswer_later falsy_def Let_def\<close>)

theorem extractAnswer_priority_witness:
  "''#### 1,234...'' \<noteq> []
   \<and> falsy (map_option (\<lambda>x. trim (filter (\<lambda>c. c \<noteq> CHR '','') x))
              (pattern_capture re_the_answer_is ''#### 1,234...''))
   \<and> map_option trim (pattern_capture re_hashes ''#### 1,234...'') = Some ''1,234...''
   \<and> extractAnswer ''#### 1,234...'' = Some ''1,234''
   \<and> map_option (\<lambda>x. trim (filter (\<lambda>c. c \<noteq> CHR '','') x))
        (pattern_capture re_the_answer_is ''So the answer is 1,234.'') = Some ''1234''
   \<and> extractAnswer ''So the answer is 1,234.'' = Some ''1234''"
proof -
  have ne: "''#### 1,234...'' \<noteq> []" "''So the answer is 1,234.'' \<noteq> []" by simp_all
  have f1: "falsy (map_option (\<lambda>x. trim (filter (\<lambda>c. c \<noteq> CHR '','') x))
              (pattern_capture re_the_answer_is ''#### 1,234...''))"
    by (simp add: extract_eval rx_eval del: rx_raw)
  have h2: "map_option trim (pattern_capture re_hashes ''#### 1,234...'') = Some ''1,234...''"
    by (simp add: extract_eval rx_eval del: rx_raw)
  have c2: "clean_answer ''1,234...'' = Some ''1,234''"
    by (simp add: extract_eval rx_eval del: rx_raw)
  have h1: "map_option (\<lambda>x. trim (filter (\<lambda>c. c \<noteq> CHR '','') x))
        (pattern_capture re_the_answer_is ''So the answer is 1,234.'') = Some ''1234''"
    by (simp add: extract_eval rx_eval del: rx_raw)
  have c1: "clean_answer ''1234'' = Some ''1234''"
    by (simp add: extract_eval rx_eval del: rx_raw)
  have r2: "extractAnswer ''#### 1,234...'' = clean_answer ''1,234...''"
    using extractAnswer_priority [OF ne(1), THEN conjunct2, THEN conjunct1, rule_format, of "''1,234...''"]
      f1 h2 by simp
  have r1: "extractAnswer ''So the answer is 1,234.'' = clean_answer ''1234''"
    using extractAnswer_priority [OF ne(2), THEN conjunct1, rule_format, of "''1234''"] h1 by simp
  show ?thesis using ne f1 h2 c2 h1 c1 r1 r2 by simp
qed

text \<open>
  The first pattern is not case-insensitive: upper-case text does not match it, and no
  answer is extracted from it.
\<close>

theorem extractAnswer_upper_case_counterexample:
  "pattern_capture re_the_answer_is ''THE ANSWER IS 42'' = None
   \<and> extractAnswer ''THE ANSWER IS 42'' = None
   \<and> extractAnswer ''The answer is 42'' = Some ''42''"
  by (simp add: extract_eval rx_eval del: rx_raw)




section \<open>Properties of the tools\<close>

lemma whitespace_allowed: "js_whitespace c \<Longrightarrow> calc_allowed c"
  by (simp add: calc_allowed_def)

lemma in_dropWhile: "x \<in> set xs \<Longrightarrow> \<not> P x \<Longrightarrow> x \<in> set (dropWhile P xs)"
  by (induction xs) auto

lemma in_trim: "x \<in> set s \<Longrightarrow> \<not> js_whitespace x \<Longrightarrow> x \<in> set (trim s)"
  by (simp add: trim_def in_dropWhile)

text \<open>An expression with a code unit outside the class is always rejected.\<close>

lemma calculate_disallowed:
  assumes "\<not> list_all calc_allowed expression"
  shows "calculate w expression = DISALLOWED_MESSAGE"
proof -
  obtain x where x: "x \<in> set expression" "\<not> calc_allowed x"
    using assms by (auto simp: list_all_iff)
  then have "\<not> js_whitespace x" using whitespace_allowed by blast
  with x have "x \<in> set (trim expression)" by (simp add: in_trim)
  moreover have "x \<notin> set (filter calc_allowed expression)" using x by simp
  ultimately have "filter calc_allowed expression \<noteq> trim expression" by metis
  then show ?thesis by (simp add: calculate_def)
qed

text \<open>
  An expression of the class with no white space at its ends is evaluated, and the
  outcome of the evaluation is returned as a string.
\<close>

lemma calculate_evaluates:
  assumes "list_all calc_allowed expression" and "trim expression = expression"
  shows "calculate w expression =
     (case evaluate w expression of Inr result \<Rightarrow> result
      | Inl message \<Rightarrow> ''Calculation error: '' @ message)"
proof -
  have "filter calc_allowed expression = expression"
    using assms(1) by (simp add: list_all_iff)
  then show ?thesis using assms(2) by (simp add: calculate_def)
qed

lemma calculate_examples:
  "evaluate w ''2 * 3 + 4'' = Inr ''10'' \<Longrightarrow> calculate w ''2 * 3 + 4'' = ''10''"
  "calculate w ''2; drop'' = DISALLOWED_MESSAGE"
  by (simp_all add: calculate_def calc_allowed_def is_digit_def js_whitespace_def trim_def)

text \<open>
  C4 (the code departs from the claim).  The expression \<open>" 1"\<close> holds only a space and
  a digit, both of the allowed class, and calculate returns the error about disallowed
  characters: the sanitized text is compared with the trimmed expression, so white
  space at either end of an expression is rejected although the class admits it.
\<close>

theorem calculate_rejects_padded_expression:
  "list_all calc_allowed '' 1'' \<and> calculate w '' 1'' = DISALLOWED_MESSAGE
   \<and> list_all calc_allowed ''2 + 3 '' \<and> calculate w ''2 + 3 '' = DISALLOWED_MESSAGE"
  by (simp add: calculate_def calc_allowed_def is_digit_def js_whitespace_def trim_def)

lemma lower_char_upper:
  "lower_char CHR ''A'' = CHR ''a''" "lower_char CHR ''B'' = CHR ''b''" "lower_char CHR ''C'' = CHR ''c''"
  "lower_char CHR ''D'' = CHR ''d''" "lower_char CHR ''E'' = CHR ''e''" "lower_char CHR ''F'' = CHR ''f''"
  "lower_char CHR ''G'' = CHR ''g''" "lower_char CHR ''H'' = CHR ''h''" "lower_char CHR ''I'' = CHR ''i''"
  "lower_char CHR ''J'' = CHR ''j''" "lower_char CHR ''K'' = CHR ''k''" "lower_char CHR ''L'' = CHR ''l''"
  "lower_char CHR ''M'' = CHR ''m''" "lower_char CHR ''N'' = CHR ''n''" "lower_char CHR ''O'' = CHR ''o''"
  "lower_char CHR ''P'' = CHR ''p''" "lower_char CHR ''Q'' = CHR ''q''" "lower_char CHR ''R'' = CHR ''r''"
  "lower_char CHR ''S'' = CHR ''s''" "lower_char CHR ''T'' = CHR ''t''" "lower_char CHR ''U'' = CHR ''u''"
  "lower_char CHR ''V'' = CHR ''v''" "lower_char CHR ''W'' = CHR ''w''" "lower_char CHR ''X'' = CHR ''x''"
  "lower_char CHR ''Y'' = CHR ''y''" "lower_char CHR ''Z'' = CHR ''z''"
  by (simp_all add: lower_char_def upper_letters_def lower_letters_def)

lemma lower_char_other: "c \<notin> set upper_letters \<Longrightarrow> lower_char c = c"
proof -
  assume "c \<notin> set upper_letters"
  moreover have "length upper_letters = length lower_letters"
    by (simp add: upper_letters_def lower_letters_def)
  ultimately have "map_of (zip upper_letters lower_letters) c = None"
    by (simp add: map_of_zip_is_None)
  then show ?thesis by (simp add: lower_char_def)
qed

lemmas lower_eval = toLowerCase_def lower_char_upper lower_char_other upper_letters_def



lemma executeTool_calculate:
  "executeTool w ''calculate'' input apiKey = Inr (calculate w input)"
  by (simp add: executeTool_def toolRegistry_def obj_read_def lower_eval)

lemma executeTool_datetime:
  "executeTool w ''datetime'' input apiKey = Inr (currentDatetime w)"
  by (simp add: executeTool_def toolRegistry_def obj_read_def lower_eval)

lemma executeTool_wikipedia:
  "executeTool w ''wikipedia'' input apiKey = wikipedia w input"
  by (simp add: executeTool_def toolRegistry_def obj_read_def lower_eval)

lemma executeTool_search:
  "executeTool w ''search'' input apiKey = openaiWebSearch w input apiKey"
  by (simp add: executeTool_def toolRegistry_def obj_read_def lower_eval)

text \<open>
  C5 (the code departs from the claim).  When the Wikipedia request fails, the promise
  of executeTool rejects for the tool \<open>wikipedia\<close>, and for \<open>search\<close> called without a
  key, which falls back on it: the first fetch of \<open>wikipedia\<close> is outside every
  \<open>try\<close>.  The name \<open>constructor\<close>, which is not registered, does not give the error
  string either: executeTool throws.
\<close>

theorem executeTool_rejects:
  "executeTool
     \<lparr>wiki_search = (\<lambda>q. Inl (TypeError ''Failed to fetch'')),
      wiki_summary = (\<lambda>t. Inr None),
      openai_fetch = (\<lambda>q k. FetchThrows (TypeError ''Failed to fetch'')),
      evaluate = (\<lambda>s. Inr s), now_iso = [], now_day = 0, now_local_date = [], now_local_time = []\<rparr>
     ''wikipedia'' ''Paris'' None = Inl (TypeError ''Failed to fetch'')
   \<and> executeTool
     \<lparr>wiki_search = (\<lambda>q. Inl (TypeError ''Failed to fetch'')),
      wiki_summary = (\<lambda>t. Inr None),
      openai_fetch = (\<lambda>q k. FetchThrows (TypeError ''Failed to fetch'')),
      evaluate = (\<lambda>s. Inr s), now_iso = [], now_day = 0, now_local_date = [], now_local_time = []\<rparr>
     ''search'' ''Paris'' None = Inl (TypeError ''Failed to fetch'')
   \<and> executeTool w ''constructor'' input apiKey = Inl (TypeError ''tool.execute is not a function'')"
  by (simp add: executeTool_wikipedia executeTool_search wikipedia_def openaiWebSearch_def)
     (simp add: executeTool_def toolRegistry_def obj_read_def lower_eval object_prototype_keys_def)



section \<open>Properties of the answer aggregator\<close>

lemma rmatch_lit_prefix:
  "rmatch (lit s) (b, a) c k =
     (if take (length s) a = s then k (rev s @ b, drop (length s) a) c else None)"
proof (induction s arbitrary: b a)
  case Nil
  then show ?case by (simp add: lit_def)
next
  case (Cons x xs)
  have "lit (x # xs) = Seq (Chr (\<lambda>y. y = x)) (lit xs)" by (simp add: lit_def)
  then show ?case using Cons by (cases a) auto
qed

lemma rmatch_similar:
  assumes "rmatch (similar_regex s) (b, a) c (\<lambda>p c. Some (p, c)) \<noteq> None"
  shows "take (length s) a = s \<and> (b = [] \<or> at_word_boundary (b, a))
         \<and> (drop (length s) a = [] \<or> at_word_boundary (rev s @ b, drop (length s) a))"
  using assms
  by (auto simp: similar_regex_def seqs_def rmatch_lit_prefix split: option.splits if_splits list.splits)

lemma exec_from_Some:
  "exec_from r b a = Some m \<Longrightarrow>
     \<exists>b' a'. rev b' @ a' = rev b @ a \<and> rmatch r (b', a') [] (\<lambda>p c. Some (p, c)) \<noteq> None"
proof (induction a arbitrary: b)
  case Nil
  then have "rmatch r (b, []) [] (\<lambda>p c. Some (p, c)) \<noteq> None"
    by (subst (asm) exec_from.simps) (auto split: option.splits)
  then show ?case by (intro exI [of _ b] exI [of _ "[]"]) simp
next
  case (Cons x xs)
  show ?case
  proof (cases "rmatch r (b, x # xs) [] (\<lambda>p c. Some (p, c))")
    case None
    with Cons.prems have "exec_from r (x # b) xs = Some m"
      by (subst (asm) exec_from.simps) simp
    from Cons.IH [OF this] show ?thesis by auto
  next
    case (Some r')
    then show ?thesis by (intro exI [of _ b] exI [of _ "x # xs"]) simp
  qed
qed

lemma regex_test_similar:
  assumes "regex_test (similar_regex s) l"
  shows "occurs_as_word s l"
proof -
  from assms obtain m where "exec_from (similar_regex s) [] l = Some m"
    by (auto simp: regex_test_def regex_exec_def)
  from exec_from_Some [OF this] obtain b a where
    ba: "rev b @ a = l" "rmatch (similar_regex s) (b, a) [] (\<lambda>p c. Some (p, c)) \<noteq> None"
    by auto
  from rmatch_similar [OF ba(2)] have
    h: "take (length s) a = s" "b = [] \<or> at_word_boundary (b, a)"
       "drop (length s) a = [] \<or> at_word_boundary (rev s @ b, drop (length s) a)"
    by auto
  have a: "a = s @ drop (length s) a" using h(1) by (metis append_take_drop_id)
  show ?thesis
    unfolding occurs_as_word_def
    apply (rule exI [of _ "rev b"], rule exI [of _ "drop (length s) a"])
    using ba(1) h a by auto
qed

lemma areSimilar_distinct:
  assumes "areSimilar a b" "a \<noteq> b"
  shows "2 \<le> length a \<and> 2 \<le> length b
         \<and> (if length a \<le> length b then occurs_as_word a b else occurs_as_word b a)"
  using assms by (auto simp: areSimilar_def Let_def regex_test_similar split: if_splits)

lemma map_fst_update:
  "map fst (map (\<lambda>(k', v'). if k' = k then (k', v) else (k', v')) obj) = map fst obj"
  by (induction obj) auto

lemma map_of_map_update:
  "map_of (map (\<lambda>(k', v'). if k' = k then (k', v) else (k', v')) obj) x =
     (if x = k then (case map_of obj k of None \<Rightarrow> None | Some _ \<Rightarrow> Some v) else map_of obj x)"
  by (induction obj) auto

lemma map_of_obj_set:
  "map_of (obj_set obj k v) x = (if x = k \<and> k \<noteq> ''__proto__'' then Some v else map_of obj x)"
proof (cases "k \<in> fst ` set obj")
  case True
  then obtain u where "map_of obj k = Some u"
    by (metis map_of_eq_None_iff not_Some_eq)
  then show ?thesis using True by (simp add: obj_set_def map_of_map_update)
next
  case False
  then have "map_of obj k = None" by (simp add: map_of_eq_None_iff)
  then show ?thesis using False by (auto simp: obj_set_def map_add_def split: option.splits)
qed

lemma keys_obj_set:
  "fst ` set (obj_set obj k v) = (if k = ''__proto__'' then fst ` set obj else insert k (fst ` set obj))"
proof -
  have "fst ` set (map (\<lambda>(k', v'). if k' = k then (k', v) else (k', v')) obj) = fst ` set obj"
    using map_fst_update [of k v obj] by (metis set_map)
  then show ?thesis by (auto simp: obj_set_def)
qed

lemma distinct_obj_set:
  "distinct (map fst obj) \<Longrightarrow> distinct (map fst (obj_set obj k v))"
proof -
  assume d: "distinct (map fst obj)"
  have "map fst (map (\<lambda>(k', v'). if k' = k then (k', v) else (k', v')) obj) = map fst obj"
    by (rule map_fst_update)
  then have "distinct (map fst (map (\<lambda>(k', v'). if k' = k then (k', v) else (k', v')) obj))"
    using d by (simp only:)
  then show ?thesis using d unfolding obj_set_def by (auto simp del: map_map)
qed

lemma mset_obj_entries: "mset (obj_entries obj) = mset obj"
  by (simp add: obj_entries_def case_prod_unfold)

lemma set_obj_keys: "set (obj_keys obj) = fst ` set obj"
proof -
  have "set (obj_entries obj) = set obj" using mset_obj_entries by (metis set_mset_mset)
  then show ?thesis by (simp add: obj_keys_def)
qed

lemma distinct_obj_keys: "distinct (map fst obj) \<Longrightarrow> distinct (obj_keys obj)"
proof -
  have "mset (map fst (obj_entries obj)) = mset (map fst obj)"
    using mset_obj_entries by (metis mset_map)
  then show "distinct (map fst obj) \<Longrightarrow> distinct (obj_keys obj)"
    unfolding obj_keys_def by (metis mset_eq_imp_distinct_iff)
qed

lemma set_sortedKeys: "set (sortedKeys ng) = fst ` set ng"
  by (simp add: sortedKeys_def set_obj_keys)

lemma distinct_sortedKeys: "distinct (map fst ng) \<Longrightarrow> distinct (sortedKeys ng)"
  by (simp add: sortedKeys_def distinct_obj_keys)

lemma short_not_similar: "length k < 2 \<Longrightarrow> c \<noteq> k \<Longrightarrow> \<not> areSimilar k c \<and> \<not> areSimilar c k"
  by (auto simp: areSimilar_def)

lemma merge_key_other:
  assumes "length k < 2" "key \<noteq> k"
  shows "map_of (merge_key ng merged key) k = map_of merged k
         \<and> (k \<notin> fst ` set merged \<longrightarrow> k \<notin> fst ` set (merge_key ng merged key))"
proof (cases "find (\<lambda>canonical. areSimilar key canonical) (obj_keys merged)")
  case None
  then show ?thesis using assms by (simp add: merge_key_def map_of_obj_set keys_obj_set)
next
  case (Some c)
  then have "areSimilar key c" by (auto simp: find_Some_iff)
  then have "c \<noteq> k" using assms short_not_similar by blast
  then show ?thesis using assms Some by (simp add: merge_key_def map_of_obj_set keys_obj_set Let_def)
qed

lemma merge_key_self:
  assumes "length k < 2" "k \<notin> fst ` set merged"
  shows "map_of (merge_key ng merged k) k =
           Some \<lparr>count = group_count ng k, originals = group_originals ng k\<rparr>"
proof -
  have "\<forall>c \<in> set (obj_keys merged). \<not> areSimilar k c"
    using assms short_not_similar by (metis set_obj_keys)
  then have "find (\<lambda>canonical. areSimilar k canonical) (obj_keys merged) = None"
    by (simp add: find_None_iff)
  moreover have "k \<noteq> ''__proto__''" using assms(1) by auto
  ultimately show ?thesis by (simp add: merge_key_def map_of_obj_set)
qed

lemma merge_fold_short:
  assumes "length k < 2"
  shows "distinct ks \<Longrightarrow> (k \<in> set ks \<longrightarrow> k \<notin> fst ` set merged) \<Longrightarrow>
     map_of (foldl (merge_key ng) merged ks) k =
       (if k \<in> set ks then Some \<lparr>count = group_count ng k, originals = group_originals ng k\<rparr>
        else map_of merged k)"
proof (induction ks arbitrary: merged)
  case Nil
  then show ?case by simp
next
  case (Cons key rest)
  show ?case
  proof (cases "key = k")
    case True
    then have notin: "k \<notin> set rest" using Cons.prems by simp
    have "map_of (foldl (merge_key ng) (merge_key ng merged k) rest) k = map_of (merge_key ng merged k) k"
      using Cons.IH [of "merge_key ng merged k"] Cons.prems notin by simp
    then show ?thesis using True Cons.prems merge_key_self [OF assms] by simp
  next
    case False
    from merge_key_other [OF assms False, of ng merged]
    have o: "map_of (merge_key ng merged key) k = map_of merged k"
      "k \<notin> fst ` set merged \<longrightarrow> k \<notin> fst ` set (merge_key ng merged key)" by auto
    have "map_of (foldl (merge_key ng) (merge_key ng merged key) rest) k =
       (if k \<in> set rest then Some \<lparr>count = group_count ng k, originals = group_originals ng k\<rparr>
        else map_of (merge_key ng merged key) k)"
      using Cons.IH [of "merge_key ng merged key"] Cons.prems o False by auto
    then show ?thesis using False o by simp
  qed
qed

lemma merge_groups_short:
  assumes "distinct (map fst ng)" "length k < 2" "map_of ng k = Some g"
  shows "map_of (merge_groups ng) k = Some g"
proof -
  have "k \<in> set (sortedKeys ng)"
    using assms(3) by (metis map_of_SomeD set_sortedKeys image_eqI fst_conv)
  then have "map_of (merge_groups ng) k = Some \<lparr>count = group_count ng k, originals = group_originals ng k\<rparr>"
    unfolding merge_groups_def
    using merge_fold_short [OF assms(2) distinct_sortedKeys [OF assms(1)], of "[]" ng] by simp
  then show ?thesis using assms(3) by (simp add: group_count_def group_originals_def)
qed

lemma distinct_add_entry:
  "add_entry ng e = Inr ng' \<Longrightarrow> distinct (map fst ng) \<Longrightarrow> distinct (map fst ng')"
  by (auto simp: add_entry_def Let_def distinct_obj_set split: member.splits)

lemma distinct_group_entries:
  "group_entries ng es = Inr ng' \<Longrightarrow> distinct (map fst ng) \<Longrightarrow> distinct (map fst ng')"
  by (induction es arbitrary: ng) (auto split: sum.splits dest: distinct_add_entry)

lemmas obj_eval = obj_read_def obj_set_def obj_entries_def obj_keys_def obj_values_def
  is_array_index_def nat_of_digits_def digit_value_def is_digit_def object_prototype_keys_def



lemma unfold_similar_regex:
  "rmatch (similar_regex s) p c k = rmatch (seqs [Alt (Bol False) WordB, lit s, Alt WordB (Eol False)]) p c k"
  by (simp only: similar_regex_def)

lemma unfold_re_norm_answer:
  "rmatch re_norm_answer p c k =
     rmatch (seqs [Opt (lit ''.''), Star True wsp, liti ''the answer is'', WordB, Star True dot, Eol False]) p c k"
  by (simp only: re_norm_answer_def)

lemma unfold_re_article:
  "rmatch re_article p c k =
     rmatch (seqs [Bol False, Group 1 (alts (liti ''the'') [liti ''a'', liti ''an'']), Plus True wsp]) p c k"
  by (simp only: re_article_def)

lemma unfold_re_edges:
  "rmatch re_edges p c k =
     rmatch (Alt (seqs [Bol False, Plus True (Chr is_edge_punct)])
                 (seqs [Plus True (Chr is_edge_punct), Eol False])) p c k"
  by (simp only: re_edges_def)

lemma unfold_re_spaces: "rmatch re_spaces p c k = rmatch (Plus True wsp) p c k"
  by (simp only: re_spaces_def)

lemmas norm_eval = basicNormalize_def normalize_rest_def replace_all_def
  unfold_re_norm_answer unfold_re_article unfold_re_edges unfold_re_spaces is_edge_punct_def Let_def

lemmas vote_eval = smartMajorityVote_def add_entry_def bump_def sortedKeys_def merge_groups_def
  merge_key_def group_count_def group_originals_def buildVoteResult_def display_key_def
  areSimilar_def unfold_similar_regex Let_def


text \<open>
  C9.  Two distinct keys are never similar when one of them has fewer than two
  characters (so \<open>9\<close> and \<open>89\<close> are not); distinct keys that are similar have at least
  two characters each and the shorter occurs in the longer as a whole word; and in the
  merge step a key of fewer than two characters keeps exactly its own group: nothing is
  merged into it and it is merged into nothing.
\<close>

theorem short_keys_never_merge:
  "(a \<noteq> b \<and> (length a < 2 \<or> length b < 2) \<longrightarrow> \<not> areSimilar a b)
   \<and> \<not> areSimilar ''9'' ''89''
   \<and> (areSimilar a b \<and> a \<noteq> b \<longrightarrow>
        2 \<le> length a \<and> 2 \<le> length b
        \<and> (if length a \<le> length b then occurs_as_word a b else occurs_as_word b a))
   \<and> (group_entries [] entries = Inr ng \<and> length k < 2 \<and> map_of ng k = Some g \<longrightarrow>
        map_of (merge_groups ng) k = Some g)"
proof (intro conjI impI)
  show "\<not> areSimilar ''9'' ''89''" by (simp add: areSimilar_def)
next
  assume "a \<noteq> b \<and> (length a < 2 \<or> length b < 2)"
  then show "\<not> areSimilar a b" by (auto simp: areSimilar_def)
next
  assume h: "areSimilar a b \<and> a \<noteq> b"
  with areSimilar_distinct [of a b]
  show "2 \<le> length a" "2 \<le> length b"
    "if length a \<le> length b then occurs_as_word a b else occurs_as_word b a"
    by simp_all
next
  assume h: "group_entries [] entries = Inr ng \<and> length k < 2 \<and> map_of ng k = Some g"
  then have "distinct (map fst ng)"
    using distinct_group_entries [of "[]" entries ng] by simp
  with h show "map_of (merge_groups ng) k = Some g"
    by (simp add: merge_groups_short)
qed

theorem short_keys_never_merge_witness:
  "''9'' \<noteq> ''89'' \<and> length ''9'' < 2 \<and> \<not> areSimilar ''9'' ''89''
   \<and> areSimilar ''paris'' ''paris, france'' \<and> ''paris'' \<noteq> ''paris, france''
   \<and> occurs_as_word ''paris'' ''paris, france''
   \<and> group_entries [] [(''9'', ''9''), (''89'', ''89''), (''89'', ''89'')] =
       Inr [(''9'', \<lparr>count = 1, originals = [(''9'', 1)]\<rparr>),
            (''89'', \<lparr>count = 2, originals = [(''89'', 2)]\<rparr>)]
   \<and> map_of (merge_groups [(''9'', \<lparr>count = 1, originals = [(''9'', 1)]\<rparr>),
                            (''89'', \<lparr>count = 2, originals = [(''89'', 2)]\<rparr>)]) ''9''
       = Some \<lparr>count = 1, originals = [(''9'', 1)]\<rparr>"
proof -
  let ?ng = "[(''9'', \<lparr>count = 1, originals = [(''9'', 1)]\<rparr>),
              (''89'', \<lparr>count = 2, originals = [(''89'', 2::nat)]\<rparr>)]"
  let ?es = "[(''9'', ''9''), (''89'', ''89''), (''89'', ''89'')]"
  have ge: "group_entries [] ?es = Inr ?ng"
    by (simp add: add_entry_def bump_def obj_eval Let_def)
  have sim: "areSimilar ''paris'' ''paris, france''"
    by (simp add: areSimilar_def unfold_similar_regex rx_eval del: rx_raw)
  note t1 = short_keys_never_merge [of "''9''" "''89''" ?es ?ng "''9''" "\<lparr>count = 1, originals = [(''9'', 1)]\<rparr>"]
  note t2 = short_keys_never_merge [of "''paris''" "''paris, france''" ?es ?ng "''9''" "\<lparr>count = 1, originals = [(''9'', 1)]\<rparr>"]
  have r1: "\<not> areSimilar ''9'' ''89''" using t1 by simp
  have r2: "occurs_as_word ''paris'' ''paris, france''" using t2 sim by simp
  have r3: "map_of (merge_groups ?ng) ''9'' = Some \<lparr>count = 1, originals = [(''9'', 1)]\<rparr>"
    using t1 ge by simp
  show ?thesis using r1 r2 r3 ge sim by simp
qed


section \<open>Properties of runCoT\<close>

lemma extract_constructor: "extractAnswer ''The answer is constructor.'' = Some ''constructor''"
  by (simp add: extract_eval rx_eval del: rx_raw)

lemma normalize_inherited:
  "normalize_rest ''constructor'' = ''constructor''" "normalize_rest ''__proto__'' = ''__proto__''"
  by (simp_all add: norm_eval rx_eval del: rx_raw)

lemma lower_trim_constructor: "toLowerCase (trim ''constructor'') = ''constructor''"
  by (simp add: trim_def js_whitespace_def lower_eval)

lemma vote_constructor:
  "smartMajorityVote ask n apiKey [Some ''constructor''] =
     Inl (TypeError ''Cannot read properties of undefined'')"
  by (simp add: smartMajorityVote_def basicNormalize_def lower_trim_constructor normalize_inherited
        add_entry_def obj_read_def object_prototype_keys_def Let_def)

text \<open>
  Unanimous answers whose common key is not a member inherited from
  \<open>Object.prototype\<close>: one group, holding every vote; the answer displayed is a most
  frequent original form (lower-cased and trimmed).
\<close>

lemma proto_key: "toLowerCase (trim a) = ''__proto__'' \<Longrightarrow> entry_key a = ''__proto__''"
  by (simp add: entry_key_def basicNormalize_def normalize_inherited)

lemma obj_read_own: "map_of obj k = Some v \<Longrightarrow> obj_read obj k = Own v"
  by (simp add: obj_read_def)

lemma obj_read_absent: "map_of obj k = None \<Longrightarrow> k \<notin> set object_prototype_keys \<Longrightarrow> obj_read obj k = Absent"
  by (simp add: obj_read_def)

lemma obj_set_single: "k \<noteq> ''__proto__'' \<Longrightarrow> obj_set [(k, v)] k v' = [(k, v')]"
  by (simp add: obj_set_def)

lemma obj_set_empty: "k \<noteq> ''__proto__'' \<Longrightarrow> obj_set [] k v = [(k, v)]"
  by (simp add: obj_set_def)

lemma not_proto: "k \<notin> set object_prototype_keys \<Longrightarrow> k \<noteq> ''__proto__''"
  by (auto simp: object_prototype_keys_def)

lemma group_entries_single:
  assumes k: "k \<notin> set object_prototype_keys"
  shows "\<forall>e \<in> set es. (if snd e \<noteq> [] then snd e else fst e) = k \<Longrightarrow>
     group_entries [(k, \<lparr>count = c, originals = os\<rparr>)] es =
       Inr [(k, \<lparr>count = c + length es, originals = foldl (\<lambda>os orig. bump os orig 1) os (map fst es)\<rparr>)]"
proof (induction es arbitrary: c os)
  case Nil
  then show ?case by simp
next
  case (Cons e es)
  then have ke: "(if snd e \<noteq> [] then snd e else fst e) = k" by simp
  have "add_entry [(k, \<lparr>count = c, originals = os\<rparr>)] e =
          Inr [(k, \<lparr>count = c + 1, originals = bump os (fst e) 1\<rparr>)]"
    using ke not_proto [OF k]
    by (simp add: add_entry_def Let_def obj_read_def obj_set_single)
  then show ?case using Cons by simp
qed

lemma group_entries_first:
  assumes k: "k \<notin> set object_prototype_keys"
    and "\<forall>e \<in> set es. (if snd e \<noteq> [] then snd e else fst e) = k" and "es \<noteq> []"
  shows "group_entries [] es =
       Inr [(k, \<lparr>count = length es, originals = foldl (\<lambda>os orig. bump os orig 1) [] (map fst es)\<rparr>)]"
proof -
  obtain e rest where es: "es = e # rest" using assms(3) by (cases es) auto
  then have ke: "(if snd e \<noteq> [] then snd e else fst e) = k" using assms(2) by simp
  have "add_entry [] e = Inr [(k, \<lparr>count = 1, originals = bump [] (fst e) 1\<rparr>)]"
    using ke k not_proto [OF k]
    by (simp add: add_entry_def Let_def obj_read_def obj_set_empty)
  then show ?thesis
    using es assms(2) group_entries_single [OF k, of rest 1 "bump [] (fst e) 1"] by simp
qed

lemma obj_entries_single: "obj_entries [(k, v)] = [(k, v)]"
  by (simp add: obj_entries_def)

lemma merge_groups_single:
  assumes "k \<noteq> ''__proto__''"
  shows "merge_groups [(k, g)] = [(k, g)]"
  using assms
  by (simp add: merge_groups_def sortedKeys_def obj_keys_def obj_entries_single merge_key_def
        obj_entries_def obj_set_empty group_count_def group_originals_def)

lemma buildVoteResult_single:
  "buildVoteResult [(k, g)] totalAnswers extra =
     \<lparr>answer = (if count g > 0 then display_key (originals g) else None), votes = count g,
      distribution = obj_set [] (case display_key (originals g) of None \<Rightarrow> ''null'' | Some d \<Rightarrow> d) (count g),
      extraUsage = extra\<rparr>"
  by (simp add: buildVoteResult_def obj_values_def obj_entries_single Let_def)

lemma vote_single_key:
  assumes "valid \<noteq> []" and "\<forall>a \<in> set valid. entry_key a = k"
    and k: "k \<notin> set object_prototype_keys"
  shows "smartMajorityVote ask n apiKey (map Some valid) =
     Inr \<lparr>answer = display_key (tally (map (\<lambda>a. toLowerCase (trim a)) valid)),
          votes = length valid,
          distribution = obj_set [] (case display_key (tally (map (\<lambda>a. toLowerCase (trim a)) valid)) of
                                       None \<Rightarrow> ''null'' | Some d \<Rightarrow> d) (length valid),
          extraUsage = None\<rparr>"
proof -
  let ?es = "map (\<lambda>a. (toLowerCase (trim a), basicNormalize a)) valid"
  have v: "concat (map (\<lambda>a. case a of None \<Rightarrow> [] | Some s \<Rightarrow> [s]) (map Some valid)) = valid"
    by (induction valid) auto
  have keys: "\<forall>e \<in> set ?es. (if snd e \<noteq> [] then snd e else fst e) = k"
    using assms(2) by (auto simp: entry_key_def)
  have ne: "?es \<noteq> []" using assms(1) by simp
  have ge: "group_entries [] ?es =
       Inr [(k, \<lparr>count = length valid, originals = tally (map (\<lambda>a. toLowerCase (trim a)) valid)\<rparr>)]"
    using group_entries_first [OF k keys ne] by (simp add: tally_def comp_def)
  have pos: "0 < length valid" using assms(1) by simp
  show ?thesis
    unfolding smartMajorityVote_def v
    using pos ge
    by (simp add: Let_def merge_groups_single [OF not_proto [OF k]] obj_keys_def obj_entries_single
          buildVoteResult_single)
qed

lemma map_of_bump:
  "orig \<noteq> ''__proto__'' \<Longrightarrow>
     map_of (bump os orig c) x =
       (if x = orig then Some ((case map_of os orig of None \<Rightarrow> 0 | Some n \<Rightarrow> n) + c) else map_of os x)"
  by (simp add: bump_def map_of_obj_set)

lemma distinct_bump: "distinct (map fst os) \<Longrightarrow> distinct (map fst (bump os orig c))"
  by (simp add: bump_def distinct_obj_set)

lemma tally_fold:
  "''__proto__'' \<notin> set origs \<Longrightarrow>
     map_of (foldl (\<lambda>os orig. bump os orig 1) os origs) x =
       (if count_list origs x = 0 then map_of os x
        else Some ((case map_of os x of None \<Rightarrow> 0 | Some n \<Rightarrow> n) + count_list origs x))"
proof (induction origs arbitrary: os)
  case Nil
  then show ?case by simp
next
  case (Cons og origs)
  then have og: "og \<noteq> ''__proto__''" "''__proto__'' \<notin> set origs" by auto
  show ?case
    using Cons.IH [OF og(2), of "bump os og 1"] og(1)
    by (auto simp: map_of_bump split: option.splits)
qed

lemma distinct_tally_fold:
  "distinct (map fst os) \<Longrightarrow> distinct (map fst (foldl (\<lambda>os orig. bump os orig 1) os origs))"
  by (induction origs arbitrary: os) (auto simp: distinct_bump)

lemma map_of_tally:
  "''__proto__'' \<notin> set origs \<Longrightarrow>
     map_of (tally origs) x = (if x \<in> set origs then Some (count_list origs x) else None)"
  using tally_fold [of origs "[]" x] by (auto simp: tally_def count_list_0_iff)

lemma distinct_tally: "distinct (map fst (tally origs))"
  unfolding tally_def by (rule distinct_tally_fold) simp

lemma display_fold:
  "foldl (\<lambda>(displayKey, maxOrigCount) (orig, cnt).
            if cnt > maxOrigCount then (Some orig, cnt) else (displayKey, maxOrigCount))
         (dk, m :: nat) xs = (dk', m') \<Longrightarrow>
     m \<le> m' \<and> (\<forall>(og, c) \<in> set xs. c \<le> m')
       \<and> (m < m' \<longrightarrow> (\<exists>og. dk' = Some og \<and> (og, m') \<in> set xs))
       \<and> (\<not> m < m' \<longrightarrow> dk' = dk)"
proof (induction xs arbitrary: dk m)
  case Nil
  then show ?case by simp
next
  case (Cons x xs)
  obtain og c where x: "x = (og, c)" by (cases x) auto
  show ?case
  proof (cases "c > m")
    case True
    with Cons.prems x have "foldl (\<lambda>(displayKey, maxOrigCount) (orig, cnt).
            if cnt > maxOrigCount then (Some orig, cnt) else (displayKey, maxOrigCount))
         (Some og, c) xs = (dk', m')" by simp
    from Cons.IH [OF this] show ?thesis using True x by (auto split: if_splits)
  next
    case False
    with Cons.prems x have "foldl (\<lambda>(displayKey, maxOrigCount) (orig, cnt).
            if cnt > maxOrigCount then (Some orig, cnt) else (displayKey, maxOrigCount))
         (dk, m) xs = (dk', m')" by simp
    from Cons.IH [OF this] show ?thesis using False x by (auto split: if_splits)
  qed
qed

lemma set_obj_entries: "set (obj_entries obj) = set obj"
  using mset_obj_entries by (metis set_mset_mset)

lemma display_key_most_frequent:
  assumes "origs \<noteq> []" "''__proto__'' \<notin> set origs"
  shows "\<exists>d. display_key (tally origs) = Some d \<and> d \<in> set origs
           \<and> (\<forall>og. count_list origs og \<le> count_list origs d)"
proof -
  let ?f = "\<lambda>(displayKey, maxOrigCount) (orig, cnt).
            if cnt > maxOrigCount then (Some orig, cnt) else (displayKey :: string option, maxOrigCount :: nat)"
  obtain dk m where r: "foldl ?f (None, 0) (obj_entries (tally origs)) = (dk, m)"
    by (cases "foldl ?f (None, 0) (obj_entries (tally origs))") auto
  from display_fold [OF r] have
    le: "\<forall>(og, c) \<in> set (tally origs). c \<le> m"
    and pick: "0 < m \<longrightarrow> (\<exists>og. dk = Some og \<and> (og, m) \<in> set (tally origs))"
    by (simp_all add: set_obj_entries)
  obtain o0 where o0: "o0 \<in> set origs" using assms(1) by (cases origs) auto
  have entry: "(og, count_list origs og) \<in> set (tally origs)" if "og \<in> set origs" for og
    using that map_of_tally [OF assms(2), of og] by (simp add: map_of_SomeD)
  have "count_list origs o0 \<noteq> 0" using o0 by (simp add: count_list_0_iff)
  then have "0 < count_list origs o0" by simp
  with entry [OF o0] le have "0 < m" by fastforce
  with pick obtain d where d: "dk = Some d" "(d, m) \<in> set (tally origs)" by auto
  have "map_of (tally origs) d = Some m"
    using d(2) distinct_tally by (simp add: map_of_is_SomeI)
  then have dm: "d \<in> set origs" "count_list origs d = m"
    using map_of_tally [OF assms(2), of d] by (auto split: if_splits)
  have "count_list origs og \<le> m" for og
  proof (cases "og \<in> set origs")
    case True
    with entry le show ?thesis by fastforce
  next
    case False
    then show ?thesis by (simp add: count_list_0_iff)
  qed
  then show ?thesis using r d(1) dm by (auto simp: display_key_def)
qed

lemma all_resolved_map:
  "\<forall>x \<in> set xs. f x = Inr (g x) \<Longrightarrow> all_resolved (map f xs) = Inr (map g xs)"
  by (induction xs) auto

lemma runCoT_unanimous:
  assumes n: "0 < nSamples"
    and samples: "\<forall>i<nSamples. ask i [\<lparr>role = ''system'', msg_content = COT_SYSTEM\<rparr>,
                      \<lparr>role = ''user'', msg_content = buildPrompt question mode\<rparr>] = Inr (r i)"
    and factual: "ctype cls \<noteq> ''open-ended''"
    and replies: "\<forall>i<nSamples. content (r i) = Some (reply i)"
    and extracted: "\<forall>i<nSamples. extractAnswer (reply i) = Some (a i)"
    and same: "\<forall>i<nSamples. entry_key (a i) = k"
    and k: "k \<notin> set object_prototype_keys"
  shows "\<exists>res d. runCoT ask cls apiKey question nSamples mode = Inr res
           \<and> confidence res = Some 1 \<and> finalAnswer res = Some d
           \<and> d \<in> set (map (\<lambda>i. toLowerCase (trim (a i))) [0..<nSamples])
           \<and> (\<forall>og. count_list (map (\<lambda>i. toLowerCase (trim (a i))) [0..<nSamples]) og
                   \<le> count_list (map (\<lambda>i. toLowerCase (trim (a i))) [0..<nSamples]) d)"
proof -
  let ?msgs = "[\<lparr>role = ''system'', msg_content = COT_SYSTEM\<rparr>,
                \<lparr>role = ''user'', msg_content = buildPrompt question mode\<rparr>]"
  let ?valid = "map a [0..<nSamples]"
  let ?origs = "map (\<lambda>i. toLowerCase (trim (a i))) [0..<nSamples]"
  have res: "all_resolved (map (\<lambda>i. ask i ?msgs) [0..<nSamples]) = Inr (map r [0..<nSamples])"
    using samples by (intro all_resolved_map) simp
  have ex: "map (\<lambda>p. case p of None \<Rightarrow> None | Some t \<Rightarrow> extractAnswer t)
                 (map content (map r [0..<nSamples])) = map Some ?valid"
    using replies extracted by simp
  have ne: "?valid \<noteq> []" using n by simp
  have keys: "\<forall>x \<in> set ?valid. entry_key x = k" using same by auto
  have og: "map (\<lambda>a. toLowerCase (trim a)) ?valid = ?origs" by (simp add: comp_def)
  have noproto: "''__proto__'' \<notin> set ?origs"
  proof
    assume "''__proto__'' \<in> set ?origs"
    then obtain i where "i < nSamples" "toLowerCase (trim (a i)) = ''__proto__''" by auto
    then have "k = ''__proto__''" using same proto_key by metis
    then show False using k by (simp add: object_prototype_keys_def)
  qed
  from display_key_most_frequent [OF _ noproto] n obtain d where
    d: "display_key (tally ?origs) = Some d" "d \<in> set ?origs"
       "\<forall>og. count_list ?origs og \<le> count_list ?origs d"
    by auto
  have vote: "smartMajorityVote ask nSamples apiKey (map Some ?valid) =
     Inr \<lparr>answer = Some d, votes = nSamples,
          distribution = obj_set [] d nSamples, extraUsage = None\<rparr>"
    using vote_single_key [OF ne keys k, of ask nSamples apiKey] unfolding og d(1) by simp
  have cnt: "length (filter (\<lambda>a. a \<noteq> None) (map Some ?valid)) = nSamples"
    by (simp add: filter_map comp_def)
  show ?thesis
    unfolding runCoT_def
    using res factual n d(2,3)
    by (simp add: Let_def ex vote cnt del: map_map)
qed

text \<open>
  C3 (the code departs from the claim).  One sampled path, classified factual, whose
  extracted answer is \<open>constructor\<close>: every path yields a non-null answer and all
  answers have the same normalized form, yet smartMajorityVote throws a TypeError and
  runCoT rejects: no confidence and no final answer are returned.  The groups are kept
  in a plain object, so the key \<open>constructor\<close> finds the member inherited from
  \<open>Object.prototype\<close>.  When the answers share one key of step 2 (the normalized form,
  or the original form when the normalized one is empty) and that key is not
  inherited, the confidence is 1 and the final answer is a most frequent original
  form, as \<open>runCoT_unanimous\<close> shows.
\<close>

theorem runCoT_inherited_key:
  "runCoT (\<lambda>i ms. Inr \<lparr>content = Some ''The answer is constructor.'', finishReason = ''stop'', usage = zero_usage\<rparr>)
          \<lparr>ctype = ''factual'', cusage = None\<rparr> None ''What is the method called?'' 1 ''few-shot''
     = Inl (TypeError ''Cannot read properties of undefined'')
   \<and> extractAnswer ''The answer is constructor.'' = Some ''constructor''
   \<and> basicNormalize ''constructor'' = ''constructor''"
  by (simp add: runCoT_def Let_def extract_constructor vote_constructor basicNormalize_def
        lower_trim_constructor normalize_inherited)



section \<open>Properties of runReAct\<close>

lemma react_loop_actions:
  assumes script: "\<forall>i ms. \<exists>res reply act obs. ask i ms = Inr res \<and> content res = Some reply
              \<and> falsy (parseReActAnswer reply) \<and> parseReActAction reply = Some act
              \<and> executeTool w (actionName act) (actionInput act) apiKey = Inr obs"
  shows "maxTurns - turn0 = n \<Longrightarrow> turn0 \<le> maxTurns \<Longrightarrow>
     \<exists>r. react_loop ask w apiKey maxTurns turn0 ms traj us = Inr r \<and> truncated r
         \<and> react_llmCalls r = maxTurns \<and> turns r = maxTurns
         \<and> length (trajectory r) = length traj + 2 * (maxTurns - turn0)"
proof (induction n arbitrary: turn0 ms traj us)
  case 0
  then have "turn0 = maxTurns" by simp
  then show ?case
    by (subst react_loop.simps) (simp add: react_truncated_def Let_def)
next
  case (Suc n)
  then have lt: "turn0 < maxTurns" by simp
  from script obtain res reply act obs where
    h: "ask turn0 ms = Inr res" "content res = Some reply" "falsy (parseReActAnswer reply)"
       "parseReActAction reply = Some act"
       "executeTool w (actionName act) (actionInput act) apiKey = Inr obs"
    by blast
  let ?ms = "ms @ [\<lparr>role = ''assistant'', msg_content = reply\<rparr>,
                    \<lparr>role = ''user'', msg_content = ''Observation: '' @ obs\<rparr>]"
  let ?traj = "(traj @ [\<lparr>ev_role = ''assistant'', ev_content = reply, ev_turn = turn0 + 1\<rparr>])
                 @ [\<lparr>ev_role = ''observation'', ev_content = obs, ev_turn = turn0 + 1\<rparr>]"
  have step: "react_loop ask w apiKey maxTurns turn0 ms traj us =
              react_loop ask w apiKey maxTurns (turn0 + 1) ?ms ?traj (us @ [usage res])"
    using lt h by (subst react_loop.simps) (simp add: Let_def)
  have "maxTurns - (turn0 + 1) = n" "turn0 + 1 \<le> maxTurns" using Suc.prems by simp_all
  from Suc.IH [OF this, of ?ms ?traj "us @ [usage res]"] obtain r where
    r: "react_loop ask w apiKey maxTurns (turn0 + 1) ?ms ?traj (us @ [usage res]) = Inr r"
       "truncated r" "react_llmCalls r = maxTurns" "turns r = maxTurns"
       "length (trajectory r) = length ?traj + 2 * (maxTurns - (turn0 + 1))"
    by blast
  show ?case
    using step r lt by (intro exI [of _ r]) simp
qed

text \<open>
  C2 (amended).  When every call of the model resolves to a reply whose text holds a
  well-formed action and no answer, and the tool of every such action resolves, runReAct ends
  after exactly \<open>maxTurns\<close> turns with \<open>truncated\<close> set and \<open>llmCalls = maxTurns\<close>, and the
  trajectory has exactly \<open>2 * maxTurns\<close> events: the reply and the observation of each
  turn.
\<close>

theorem runReAct_actions_only:
  assumes "\<forall>i ms. \<exists>res reply act obs. ask i ms = Inr res \<and> content res = Some reply
              \<and> falsy (parseReActAnswer reply) \<and> parseReActAction reply = Some act
              \<and> executeTool w (actionName act) (actionInput act) apiKey = Inr obs"
  shows "\<exists>r. runReAct ask w apiKey question maxTurns = Inr r \<and> truncated r
           \<and> react_llmCalls r = maxTurns \<and> turns r = maxTurns
           \<and> length (trajectory r) = 2 * maxTurns"
proof -
  have "\<exists>r. react_loop ask w apiKey maxTurns 0
            [\<lparr>role = ''system'', msg_content = buildSystemPrompt\<rparr>,
             \<lparr>role = ''user'', msg_content = question\<rparr>] [] [] = Inr r \<and> truncated r
         \<and> react_llmCalls r = maxTurns \<and> turns r = maxTurns
         \<and> length (trajectory r) = length ([] :: traj_event list) + 2 * (maxTurns - 0)"
    by (rule react_loop_actions [OF assms]) simp_all
  then show ?thesis by (simp add: runReAct_def)
qed

lemma unfold_re_react_answer:
  "rmatch re_react_answer p c k =
     rmatch (seqs [lit ''Answer:'', Star True wsp, Group 1 (Star True any_char)]) p c k"
  by (simp only: re_react_answer_def)

lemma unfold_re_action:
  "rmatch re_action p c k =
     rmatch (seqs [Bol True, lit ''Action:'', Star True wsp, Group 1 (Plus True word_char), lit '':'',
           Star True wsp, Group 2 (Star False any_char),
           Look (Alt (lit (CHR 0x0A # ''PAUSE'')) (Seq (Star True (lit [CHR 0x0A])) (Eol True)))]) p c k"
  by (simp only: re_action_def)

lemmas react_eval = parseReActAnswer_def parseReActAction_def unfold_re_react_answer unfold_re_action

lemma script_reply:
  "parseReActAnswer ''Action: calculate: 1'' = None"
  "parseReActAction ''Action: calculate: 1'' = Some \<lparr>actionName = ''calculate'', actionInput = ''1''\<rparr>"
  "parseReActAnswer ''1'' = None"
  by (simp_all add: react_eval rx_eval del: rx_raw)

lemma spec_example_action:
  "parseReActAction (''Thought: x'' @ [CHR 0x0A] @ ''Action: search: capital of France'' @ [CHR 0x0A] @ ''PAUSE'')
    = Some \<lparr>actionName = ''search'', actionInput = ''capital of France''\<rparr>"
  by (simp add: react_eval rx_eval del: rx_raw)

theorem runReAct_actions_only_witness:
  "(\<forall>i ms. \<exists>res reply act obs.
       (\<lambda>i ms. Inr \<lparr>content = Some ''Action: calculate: 1'', finishReason = ''stop'', usage = zero_usage\<rparr>) i ms = Inr res
       \<and> content res = Some reply
       \<and> falsy (parseReActAnswer reply)
       \<and> parseReActAction reply = Some act
       \<and> executeTool \<lparr>wiki_search = (\<lambda>q. Inr []), wiki_summary = (\<lambda>t. Inr None),
             openai_fetch = (\<lambda>q k. FetchThrows (TypeError ''Failed to fetch'')),
             evaluate = (\<lambda>s. Inr s), now_iso = [], now_day = 0, now_local_date = [],
             now_local_time = []\<rparr> (actionName act) (actionInput act) None = Inr obs)
   \<and> (\<exists>r. runReAct (\<lambda>i ms. Inr \<lparr>content = Some ''Action: calculate: 1'', finishReason = ''stop'', usage = zero_usage\<rparr>)
             \<lparr>wiki_search = (\<lambda>q. Inr []), wiki_summary = (\<lambda>t. Inr None),
              openai_fetch = (\<lambda>q k. FetchThrows (TypeError ''Failed to fetch'')),
              evaluate = (\<lambda>s. Inr s), now_iso = [], now_day = 0, now_local_date = [],
              now_local_time = []\<rparr> None ''What is 1?'' 3 = Inr r
          \<and> truncated r \<and> react_llmCalls r = 3 \<and> turns r = 3 \<and> length (trajectory r) = 6)"
proof -
  let ?ask = "\<lambda>(i::nat) (ms::message list).
     Inr \<lparr>content = Some ''Action: calculate: 1'', finishReason = ''stop'', usage = zero_usage\<rparr> :: exn + LLMResult"
  let ?w = "\<lparr>wiki_search = (\<lambda>q. Inr []), wiki_summary = (\<lambda>t. Inr None),
             openai_fetch = (\<lambda>q k. FetchThrows (TypeError ''Failed to fetch'')),
             evaluate = (\<lambda>s. Inr s), now_iso = [], now_day = 0, now_local_date = [],
             now_local_time = []\<rparr>"
  have h: "\<forall>i ms. \<exists>res reply act obs. ?ask i ms = Inr res \<and> content res = Some reply
              \<and> falsy (parseReActAnswer reply) \<and> parseReActAction reply = Some act
              \<and> executeTool ?w (actionName act) (actionInput act) None = Inr obs"
    by (simp add: script_reply falsy_def executeTool_calculate)
  from runReAct_actions_only [OF h, of "''What is 1?''" 3] h show ?thesis by simp
qed

text \<open>
  With one turn allowed and a reply that is an action, the trajectory has two events,
  the reply and the observation: more than \<open>2 * maxTurns - 1 = 1\<close>.
\<close>

theorem runReAct_trajectory_counterexample:
  "runReAct (\<lambda>i ms. Inr \<lparr>content = Some ''Action: calculate: 1'', finishReason = ''stop'', usage = zero_usage\<rparr>)
      \<lparr>wiki_search = (\<lambda>q. Inr []), wiki_summary = (\<lambda>t. Inr None),
       openai_fetch = (\<lambda>q k. FetchThrows (TypeError ''Failed to fetch'')),
       evaluate = (\<lambda>s. Inr s), now_iso = [], now_day = 0, now_local_date = [],
       now_local_time = []\<rparr> None ''What is 1?'' 1
     = Inr \<lparr>react_answer = None, react_error = Some (exceeded_message 1), truncated = True,
            trajectory = [\<lparr>ev_role = ''assistant'', ev_content = ''Action: calculate: 1'', ev_turn = 1\<rparr>,
                          \<lparr>ev_role = ''observation'', ev_content = ''1'', ev_turn = 1\<rparr>],
            turns = 1, react_usage = zero_usage, react_llmCalls = 1\<rparr>
   \<and> \<not> (int (length [\<lparr>ev_role = ''assistant'', ev_content = ''Action: calculate: 1'', ev_turn = 1\<rparr>,
                         \<lparr>ev_role = ''observation'', ev_content = ''1'', ev_turn = 1\<rparr>]) \<le> 2 * 1 - 1)"
proof -
  have c: "calculate w ''1'' = (case evaluate w ''1'' of Inr result \<Rightarrow> result
            | Inl message \<Rightarrow> ''Calculation error: '' @ message)" for w
    by (simp add: calculate_def calc_allowed_def is_digit_def trim_def js_whitespace_def)
  have u: "sumUsage [zero_usage] = zero_usage"
    by (simp add: sumUsage_def add_usage_def zero_usage_def)
  show ?thesis
    apply (simp add: runReAct_def)
    apply (subst react_loop.simps)
    apply (simp add: script_reply falsy_def executeTool_calculate c Let_def)
    apply (subst react_loop.simps)
    apply (simp add: react_truncated_def script_reply falsy_def u Let_def)
    done
qed


section \<open>Properties of runReWOO\<close>


























section \<open>Properties of runPlanExecute\<close>











text \<open>A planner reply without content makes the run reject before any plan exists.\<close>

lemma runPlanExecute_null_content:
  assumes "ask 0 [\<lparr>role = ''system'', msg_content = PLANNER_SYSTEM\<rparr>,
                  \<lparr>role = ''user'', msg_content = question\<rparr>] = Inr planResult"
    and "content planResult = None"
  shows "runPlanExecute ask w apiKey question maxReplans = Inl (null_read ''split'')"
  using assms by (simp add: runPlanExecute_def)












end
